theory Spec2Isabelle
  imports Complex_Main "HOL-Library.AList"
begin

section \<open>JavaScript values\<close>

text \<open>
  The visualization components work on rows of a query result: JavaScript objects whose
  values are numbers, strings or \<open>null\<close>. A number is a finite value, \<open>NaN\<close> or one of the
  two infinities. Finite doubles are idealised as rationals: \<open>+\<close>, \<open>/\<close> and the decimal
  rounding of \<open>toFixed\<close> are exact, the binary rounding and the bounded range of IEEE 754
  are not modelled, and \<open>-0\<close> is \<open>0\<close>.

  An object is the list of its own properties in the order in which \<open>Object.keys\<close> and
  \<open>Object.entries\<close> enumerate them; an assignment \<open>o[k] = v\<close> is \<open>AList.update k v o\<close>
  (in place when the key exists, appended otherwise) and a read \<open>o[k]\<close> is \<open>map_of o k\<close>,
  where \<open>None\<close> is \<open>undefined\<close>. Properties inherited from \<open>Object.prototype\<close> and
  the numeric reordering of array-index keys are not modelled.
\<close>

datatype jsnum = Fin rat | NaN | PosInf | NegInf

datatype jsval = JNum jsnum | JStr string | JNull

type_synonym row = "(string \<times> jsval) list"

text \<open>\<open>typeof v === "number"\<close>, on the result of a property read.\<close>

fun is_number :: "jsval option \<Rightarrow> bool" where
  "is_number (Some (JNum n)) = True"
| "is_number v = False"

text \<open>\<open>typeof v === "string"\<close>.\<close>

fun is_string :: "jsval option \<Rightarrow> bool" where
  "is_string (Some (JStr s)) = True"
| "is_string v = False"

text \<open>ToBoolean: \<open>0\<close>, \<open>NaN\<close>, the empty string, \<open>null\<close> and \<open>undefined\<close> are falsy.\<close>

fun truthy :: "jsval option \<Rightarrow> bool" where
  "truthy None = False"
| "truthy (Some JNull) = False"
| "truthy (Some (JStr s)) = (s \<noteq> [])"
| "truthy (Some (JNum n)) = (n \<noteq> Fin 0 \<and> n \<noteq> NaN)"

text \<open>\<open>a ?? b\<close>: the left operand unless it is \<open>null\<close> or \<open>undefined\<close>.\<close>

fun nullish :: "jsval option \<Rightarrow> bool" where
  "nullish None = True"
| "nullish (Some JNull) = True"
| "nullish (Some v) = False"

definition coalesce :: "jsval option \<Rightarrow> jsval option \<Rightarrow> jsval option" where
  "coalesce a b = (if nullish a then b else a)"

subsection \<open>Characters and strings\<close>

text \<open>
  Strings are lists of 8-bit characters. The white space of \<open>\s\<close> and of \<open>trim\<close> is
  the ASCII part of it: tab, line feed, vertical tab, form feed, carriage return, space.
\<close>

definition is_space :: "char \<Rightarrow> bool" where
  "is_space c \<longleftrightarrow> (of_char c :: nat) \<in> {9, 10, 11, 12, 13, 32}"

definition to_lower :: "char \<Rightarrow> char" where
  "to_lower c = (if 65 \<le> (of_char c :: nat) \<and> (of_char c :: nat) \<le> 90
     then char_of ((of_char c :: nat) + 32) else c)"

definition toLowerCase :: "string \<Rightarrow> string" where
  "toLowerCase s = map to_lower s"

definition trim :: "string \<Rightarrow> string" where
  "trim s = rev (dropWhile is_space (rev (dropWhile is_space s)))"

definition startsWith :: "string \<Rightarrow> string \<Rightarrow> bool" where
  "startsWith s p \<longleftrightarrow> take (length p) s = p"

text \<open>\<open>xs.join(sep)\<close> on an array of strings.\<close>

fun join :: "string \<Rightarrow> string list \<Rightarrow> string" where
  "join sep [] = []"
| "join sep [x] = x"
| "join sep (x # y # ys) = x @ sep @ join sep (y # ys)"

subsection \<open>Numbers and strings\<close>

definition is_digit :: "char \<Rightarrow> bool" where
  "is_digit c \<longleftrightarrow> 48 \<le> (of_char c :: nat) \<and> (of_char c :: nat) \<le> 57"

definition digit_val :: "char \<Rightarrow> nat" where
  "digit_val c = (of_char c :: nat) - 48"

definition digit_char :: "nat \<Rightarrow> char" where
  "digit_char d = char_of (48 + d)"

function show_nat :: "nat \<Rightarrow> string" where
  "show_nat n = (if n < 10 then [digit_char n] else show_nat (n div 10) @ [digit_char (n mod 10)])"
  by pat_completeness auto
termination
  by (relation "measure (\<lambda>n. n)") auto

declare show_nat.simps [simp del]

fun frac_digits :: "nat \<Rightarrow> rat \<Rightarrow> string" where
  "frac_digits 0 f = []"
| "frac_digits (Suc n) f =
     (if f = 0 then []
      else digit_char (nat \<lfloor>f * 10\<rfloor>) # frac_digits n (f * 10 - of_int \<lfloor>f * 10\<rfloor>))"

text \<open>
  Number::toString in radix 10. A finite number is printed in positional notation, its
  fraction exact up to 20 digits. This is what JavaScript prints for an integer below
  \<open>10^21\<close> and for a number with two decimals as \<open>toFixed(2)\<close> leaves it; the exponent
  notation of larger and of very small numbers is not produced.
\<close>

definition show_rat :: "rat \<Rightarrow> string" where
  "show_rat q =
     (let a = \<bar>q\<bar>; i = \<lfloor>a\<rfloor>; f = a - of_int i
      in (if q < 0 then ''-'' else []) @ show_nat (nat i) @
         (if f = 0 then [] else ''.'' @ frac_digits 20 f))"

fun num_to_string :: "jsnum \<Rightarrow> string" where
  "num_to_string (Fin q) = show_rat q"
| "num_to_string NaN = ''NaN''"
| "num_to_string PosInf = ''Infinity''"
| "num_to_string NegInf = ''-Infinity''"

text \<open>\<open>String(v)\<close> and the string a template literal inserts for \<open>v\<close>.\<close>

fun to_string :: "jsval option \<Rightarrow> string" where
  "to_string None = ''undefined''"
| "to_string (Some JNull) = ''null''"
| "to_string (Some (JStr s)) = s"
| "to_string (Some (JNum n)) = num_to_string n"

definition dec_value :: "string \<Rightarrow> nat" where
  "dec_value ds = foldl (\<lambda>a c. 10 * a + digit_val c) 0 ds"

text \<open>The exponent part of a decimal literal: nothing, or \<open>e\<close> with a signed integer.\<close>

definition signed_digits :: "string \<Rightarrow> int option" where
  "signed_digits s =
     (case s of
        [] \<Rightarrow> None
      | c # ds \<Rightarrow>
          if c = CHR ''-'' then
            (if ds \<noteq> [] \<and> list_all is_digit ds then Some (- int (dec_value ds)) else None)
          else if c = CHR ''+'' then
            (if ds \<noteq> [] \<and> list_all is_digit ds then Some (int (dec_value ds)) else None)
          else if list_all is_digit s then Some (int (dec_value s)) else None)"

definition exponent_part :: "string \<Rightarrow> int option" where
  "exponent_part s =
     (case s of
        [] \<Rightarrow> Some 0
      | c # t \<Rightarrow> if c = CHR ''e'' \<or> c = CHR ''E'' then signed_digits t else None)"

definition pow10 :: "int \<Rightarrow> rat" where
  "pow10 e = (if 0 \<le> e then 10 ^ nat e else 1 / 10 ^ nat (- e))"

text \<open>StrUnsignedDecimalLiteral without \<open>Infinity\<close>: digits, a fraction, an exponent.\<close>

definition unsigned_decimal :: "string \<Rightarrow> rat option" where
  "unsigned_decimal s =
     (let ip = takeWhile is_digit s;
          r1 = dropWhile is_digit s;
          dot = (r1 \<noteq> [] \<and> hd r1 = CHR ''.'');
          fp = (if dot then takeWhile is_digit (tl r1) else []);
          r2 = (if dot then dropWhile is_digit (tl r1) else r1)
      in if ip = [] \<and> fp = [] then None
         else (case exponent_part r2 of
                 None \<Rightarrow> None
               | Some e \<Rightarrow>
                   Some ((of_nat (dec_value ip) + of_nat (dec_value fp) / 10 ^ length fp) * pow10 e)))"

definition unsigned_number :: "string \<Rightarrow> jsnum" where
  "unsigned_number s =
     (if s = ''Infinity'' then PosInf
      else (case unsigned_decimal s of None \<Rightarrow> NaN | Some q \<Rightarrow> Fin q))"

fun negate :: "jsnum \<Rightarrow> jsnum" where
  "negate (Fin q) = Fin (- q)"
| "negate NaN = NaN"
| "negate PosInf = NegInf"
| "negate NegInf = PosInf"

text \<open>The literals \<open>0x..\<close>, \<open>0o..\<close> and \<open>0b..\<close>, which take no sign.\<close>

definition radix_digit :: "nat \<Rightarrow> char \<Rightarrow> nat option" where
  "radix_digit b c =
     (let n = (of_char c :: nat);
          v = (if 48 \<le> n \<and> n \<le> 57 then Some (n - 48)
               else if 97 \<le> n \<and> n \<le> 102 then Some (n - 87)
               else if 65 \<le> n \<and> n \<le> 70 then Some (n - 55)
               else None)
      in (case v of None \<Rightarrow> None | Some d \<Rightarrow> if d < b then Some d else None))"

fun radix_value :: "nat \<Rightarrow> nat \<Rightarrow> string \<Rightarrow> nat option" where
  "radix_value b acc [] = Some acc"
| "radix_value b acc (c # cs) =
     (case radix_digit b c of None \<Rightarrow> None | Some d \<Rightarrow> radix_value b (b * acc + d) cs)"

definition radix_literal :: "string \<Rightarrow> nat option" where
  "radix_literal s =
     (case s of
        z # p # ds \<Rightarrow>
          if z \<noteq> CHR ''0'' \<or> ds = [] then None
          else if p = CHR ''x'' \<or> p = CHR ''X'' then radix_value 16 0 ds
          else if p = CHR ''o'' \<or> p = CHR ''O'' then radix_value 8 0 ds
          else if p = CHR ''b'' \<or> p = CHR ''B'' then radix_value 2 0 ds
          else None
      | _ \<Rightarrow> None)"

text \<open>StringToNumber: the number a string converts to, \<open>NaN\<close> when it is no numeric literal.\<close>

definition string_to_number :: "string \<Rightarrow> jsnum" where
  "string_to_number s =
     (let t = trim s
      in if t = [] then Fin 0
         else (case radix_literal t of
                 Some n \<Rightarrow> Fin (of_nat n)
               | None \<Rightarrow>
                   if hd t = CHR ''-'' then negate (unsigned_number (tl t))
                   else if hd t = CHR ''+'' then unsigned_number (tl t)
                   else unsigned_number t))"

text \<open>ToNumber.\<close>

fun to_number :: "jsval option \<Rightarrow> jsnum" where
  "to_number None = NaN"
| "to_number (Some JNull) = Fin 0"
| "to_number (Some (JNum n)) = n"
| "to_number (Some (JStr s)) = string_to_number s"

subsection \<open>Arithmetic\<close>

fun num_add :: "jsnum \<Rightarrow> jsnum \<Rightarrow> jsnum" where
  "num_add (Fin a) (Fin b) = Fin (a + b)"
| "num_add NaN y = NaN"
| "num_add x NaN = NaN"
| "num_add PosInf NegInf = NaN"
| "num_add NegInf PosInf = NaN"
| "num_add PosInf y = PosInf"
| "num_add NegInf y = NegInf"
| "num_add (Fin a) y = y"

text \<open>
  Division by a count: the divisor is the length of an array, a non-negative integer.
\<close>

fun div_count :: "jsnum \<Rightarrow> nat \<Rightarrow> jsnum" where
  "div_count NaN n = NaN"
| "div_count PosInf n = PosInf"
| "div_count NegInf n = NegInf"
| "div_count (Fin a) n =
     (if n = 0 then (if a = 0 then NaN else if 0 < a then PosInf else NegInf)
      else Fin (a / of_nat n))"

text \<open>The binary \<open>+\<close>: concatenation as soon as one operand is a string.\<close>

definition js_add :: "jsval \<Rightarrow> jsval \<Rightarrow> jsval" where
  "js_add a b =
     (if is_string (Some a) \<or> is_string (Some b)
      then JStr (to_string (Some a) @ to_string (Some b))
      else JNum (num_add (to_number (Some a)) (to_number (Some b))))"

text \<open>The order of numbers that \<open>Math.max\<close> uses; \<open>NaN\<close> is handled by its caller.\<close>

fun num_le :: "jsnum \<Rightarrow> jsnum \<Rightarrow> bool" where
  "num_le (Fin a) (Fin b) = (a \<le> b)"
| "num_le NegInf y = True"
| "num_le x PosInf = True"
| "num_le x y = False"

definition max2 :: "jsnum \<Rightarrow> jsnum \<Rightarrow> jsnum" where
  "max2 a b = (if a = NaN \<or> b = NaN then NaN else if num_le a b then b else a)"

text \<open>\<open>Math.max(...xs)\<close>: \<open>-Infinity\<close> for no argument, \<open>NaN\<close> when an argument is.\<close>

definition math_max :: "jsnum list \<Rightarrow> jsnum" where
  "math_max xs = foldl max2 NegInf xs"

section \<open>Utilities of the visualization component\<close>

text \<open>
  \<open>COLORS.categorical\<close>, the palette of the rows.
\<close>

definition COLORS_categorical :: "string list" where
  "COLORS_categorical =
     [''#2563eb'', ''#059669'', ''#d97706'', ''#dc2626'', ''#7c3aed'',
      ''#db2777'', ''#2563eb'', ''#059669'', ''#d97706'', ''#dc2626'']"

text \<open>
  The regular expression \<open>/\s+(asc|desc)\s*$/i\<close> matches at a position when the rest of
  the string is a non-empty run of white space, one of the two words in any letter case,
  and white space up to the end. The run is maximal, since neither word starts with
  white space.
\<close>

definition sort_suffix :: "string \<Rightarrow> bool" where
  "sort_suffix u \<longleftrightarrow>
     takeWhile is_space u \<noteq> [] \<and>
     toLowerCase (rev (dropWhile is_space (rev (dropWhile is_space u)))) \<in> {''asc'', ''desc''}"

text \<open>
  \<open>key.replace(/\s+(asc|desc)\s*$/i, "")\<close>: the leftmost match is removed, and it
  reaches the end of the string.
\<close>

fun strip_sort :: "string \<Rightarrow> string" where
  "strip_sort [] = []"
| "strip_sort (c # cs) = (if sort_suffix (c # cs) then [] else c # strip_sort cs)"

text \<open>
  \<open>utils.cleanKey\<close>. \<open>None\<close> is a key that is \<open>null\<close> or \<open>undefined\<close>: the optional
  chain \<open>key?.replace(...).trim()\<close> is then \<open>undefined\<close>.
\<close>

definition cleanKey :: "string option \<Rightarrow> string option" where
  "cleanKey key = (case key of None \<Rightarrow> None | Some k \<Rightarrow> Some (trim (strip_sort k)))"

text \<open>
  \<open>x.toFixed(2)\<close> takes the integer \<open>n\<close> with \<open>n / 100\<close> nearest to \<open>x\<close>, the larger one
  of two, after setting the sign of a negative \<open>x\<close> aside; \<open>Number\<close> reads the decimal
  back. \<open>NaN\<close> and the infinities print as their names and are read back as themselves.
\<close>

definition round2 :: "rat \<Rightarrow> rat" where
  "round2 q =
     (if q < 0 then - (of_int \<lfloor>(- q) * 100 + 1 / 2\<rfloor> / 100)
      else of_int \<lfloor>q * 100 + 1 / 2\<rfloor> / 100)"

fun toFixed2 :: "jsnum \<Rightarrow> jsnum" where
  "toFixed2 (Fin q) = Fin (round2 q)"
| "toFixed2 n = n"

text \<open>\<open>utils.formatNumber\<close>.\<close>

fun formatNumber :: "jsval \<Rightarrow> jsval" where
  "formatNumber (JNum n) = JNum (toFixed2 n)"
| "formatNumber v = v"

text \<open>
  \<open>utils.getNumericColumns\<close>. The sample row may be absent, and so may the key of the
  X axis, which then excludes no column.
\<close>

definition getNumericColumns :: "row option \<Rightarrow> string option \<Rightarrow> string list" where
  "getNumericColumns sampleRow xKey =
     (case sampleRow of
        None \<Rightarrow> []
      | Some r \<Rightarrow>
          filter (\<lambda>col. Some col \<noteq> xKey \<and> col \<noteq> ''color'' \<and> col \<noteq> ''name'' \<and>
                         is_number (map_of r col))
            (map fst r))"

section \<open>Configuration\<close>

record axes =
  axis_x :: "string option"
  axis_y :: "string option"

record style =
  stroke :: "string option"
  strokeDasharray :: "string option"
  radius :: "jsval option"
  fill :: "string option"

record annotation =
  anno_type :: "string option"
  anno_mode :: "string option"
  anno_x :: "jsval option"
  anno_y :: "jsval option"
  anno_label :: "string option"
  anno_style :: "style option"

record vizConfig =
  viz_type :: "string option"
  viz_axes :: "axes option"
  viz_annotations :: "annotation list option"

text \<open>Truthiness of a value that is a string when it is there.\<close>

definition truthy_str :: "string option \<Rightarrow> bool" where
  "truthy_str s = (case s of None \<Rightarrow> False | Some t \<Rightarrow> t \<noteq> [])"

text \<open>\<open>s || d\<close> for a default string \<open>d\<close>.\<close>

definition or_str :: "string option \<Rightarrow> string \<Rightarrow> string" where
  "or_str s d = (if truthy_str s then (case s of Some t \<Rightarrow> t | None \<Rightarrow> d) else d)"

text \<open>The property key that \<open>o[k]\<close> reads: \<open>"null"\<close> when \<open>k\<close> is \<open>null\<close>.\<close>

definition prop_key :: "string option \<Rightarrow> string" where
  "prop_key k = (case k of None \<Rightarrow> ''null'' | Some s \<Rightarrow> s)"

section \<open>The data processing hook\<close>

text \<open>The copy loop of \<open>useProcessedData\<close>: every field but those starting with \<open>_\<close>.\<close>

definition copy_fields :: "row \<Rightarrow> row" where
  "copy_fields r =
     foldl (\<lambda>processed (key, v).
              if startsWith key ''_'' then processed
              else AList.update key (formatNumber v) processed)
       [] r"

definition category_label :: "nat \<Rightarrow> string" where
  "category_label index = ''Category '' @ show_nat (index + 1)"

text \<open>\<open>a ?? d\<close> for a default \<open>d\<close> that is a value.\<close>

definition or_else :: "jsval option \<Rightarrow> jsval \<Rightarrow> jsval" where
  "or_else a d = (case a of None \<Rightarrow> d | Some JNull \<Rightarrow> d | Some v \<Rightarrow> v)"

text \<open>The name of a row, from the fields copied so far.\<close>

definition row_name :: "string option \<Rightarrow> nat \<Rightarrow> row \<Rightarrow> string" where
  "row_name xAxisKey index processed =
     (if truthy_str xAxisKey
      then to_string (Some (or_else (map_of processed (prop_key xAxisKey))
                              (JStr (category_label index))))
      else category_label index)"

text \<open>The value of a row, from the fields copied so far and its name.\<close>

definition row_value :: "string option \<Rightarrow> row \<Rightarrow> jsval" where
  "row_value yAxisKey processed =
     (case map_of processed (prop_key yAxisKey) of
        Some (JNum n) \<Rightarrow> JNum n
      | _ \<Rightarrow> or_else (coalesce (map_of processed ''value'') (map_of processed ''percentage''))
               (JNum (Fin 0)))"

text \<open>The body of the \<open>data.map\<close> callback.\<close>

definition process_row :: "string option \<Rightarrow> string option \<Rightarrow> nat \<Rightarrow> row \<Rightarrow> row" where
  "process_row xAxisKey yAxisKey index r =
     (let processed = copy_fields r;
          processed = AList.update ''name'' (JStr (row_name xAxisKey index processed)) processed;
          processed = AList.update ''value'' (row_value yAxisKey processed) processed
      in AList.update ''color''
           (JStr (COLORS_categorical ! (index mod length COLORS_categorical))) processed)"

text \<open>\<open>axes?.x ? utils.cleanKey(axes.x) : null\<close>, and the same for \<open>y\<close>.\<close>

definition axis_key :: "string option \<Rightarrow> string option" where
  "axis_key a = (if truthy_str a then cleanKey a else None)"

text \<open>
  The two keys that \<open>useProcessedData\<close> computes first. The configuration is \<open>None\<close>
  when it is \<open>null\<close> or \<open>undefined\<close>, and so are its parts.
\<close>

definition xAxisKey_of :: "vizConfig option \<Rightarrow> string option" where
  "xAxisKey_of vizConfig =
     axis_key (case vizConfig of
                 None \<Rightarrow> None
               | Some c \<Rightarrow> (case viz_axes c of None \<Rightarrow> None | Some a \<Rightarrow> axis_x a))"

definition yAxisKey_of :: "vizConfig option \<Rightarrow> string option" where
  "yAxisKey_of vizConfig =
     axis_key (case vizConfig of
                 None \<Rightarrow> None
               | Some c \<Rightarrow> (case viz_axes c of None \<Rightarrow> None | Some a \<Rightarrow> axis_y a))"

text \<open>
  \<open>useProcessedData\<close>. The data is \<open>None\<close> when it is \<open>null\<close>, \<open>undefined\<close> or not an
  array. The memoisation of \<open>useMemo\<close> does not change the value.
\<close>

definition useProcessedData :: "row list option \<Rightarrow> vizConfig option \<Rightarrow> row list" where
  "useProcessedData data vizConfig =
     (case data of
        None \<Rightarrow> []
      | Some rows \<Rightarrow>
          if rows = [] then []
          else map (\<lambda>(index, r).
                      process_row (xAxisKey_of vizConfig) (yAxisKey_of vizConfig) index r)
                 (enumerate 0 rows))"

section \<open>Annotations\<close>

text \<open>
  What \<open>renderAnnotations\<close> returns for one annotation: a \<open>ReferenceLine\<close> or a
  \<open>ReferenceDot\<close> element with its properties, or \<open>null\<close> (\<open>None\<close>).
\<close>

datatype element =
  ReferenceLine (el_key: string) (line_y: jsval) (line_stroke: string) (line_dash: string)
    (line_label: "string option")
| ReferenceDot (el_key: string) (dot_x: "jsval option") (dot_y: "jsval option") (dot_r: jsval)
    (dot_stroke: string) (dot_fill: string) (dot_label: "string option")

definition empty_style :: style where
  "empty_style = \<lparr>stroke = None, strokeDasharray = None, radius = None, fill = None\<rparr>"

text \<open>\<open>v || d\<close> for a default \<open>d\<close> that is a value.\<close>

definition or_val :: "jsval option \<Rightarrow> jsval \<Rightarrow> jsval" where
  "or_val v d = (case v of None \<Rightarrow> d | Some x \<Rightarrow> if truthy v then x else d)"

text \<open>
  \<open>data.reduce((acc, d) => acc + (d[yAxisKey] || 0), 0) / data.length || 0\<close>
\<close>

definition average_value :: "row list \<Rightarrow> string \<Rightarrow> jsnum" where
  "average_value data yAxisKey =
     (let total = foldl (\<lambda>acc d. js_add acc (or_val (map_of d yAxisKey) (JNum (Fin 0)))) (JNum (Fin 0)) data;
          avg = div_count (to_number (Some total)) (length data)
      in if truthy (Some (JNum avg)) then avg else Fin 0)"

text \<open>\<open>Math.max(...data.map((d) => d[yAxisKey] || 0))\<close>\<close>

definition max_value :: "row list \<Rightarrow> string option \<Rightarrow> jsnum" where
  "max_value data yAxisKey =
     math_max (map (\<lambda>d. to_number (Some (or_val (map_of d (prop_key yAxisKey)) (JNum (Fin 0))))) data)"

text \<open>The callback of \<open>annotations.map\<close>, for the annotation at index \<open>idx\<close>.\<close>

definition render_annotation :: "row list \<Rightarrow> string option \<Rightarrow> nat \<Rightarrow> annotation \<Rightarrow> element option"
  where
  "render_annotation data yAxisKey idx anno =
     (let key = ''anno-'' @ show_nat idx;
          styleProps = (case anno_style anno of None \<Rightarrow> empty_style | Some st \<Rightarrow> st)
      in if anno_type anno = Some ''line'' \<and> anno_mode anno = Some ''average'' \<and> truthy_str yAxisKey
         then Some (ReferenceLine key (JNum (average_value data (prop_key yAxisKey)))
                      (or_str (stroke styleProps) ''#666'')
                      (or_str (strokeDasharray styleProps) ''3 3'')
                      (Some (or_str (anno_label anno) ''Avg'')))
         else if anno_type anno = Some ''line'' \<and>
                 (anno_mode anno = Some ''trend'' \<or> anno_mode anno = Some ''regression'')
         then Some (ReferenceLine key (JNum (max_value data yAxisKey))
                      (or_str (stroke styleProps) ''rgba(255,0,0,0.5)'')
                      (or_str (strokeDasharray styleProps) ''5,5'')
                      (Some (or_str (anno_label anno) ''Trend/Max'')))
         else if anno_type anno = Some ''line'' \<and> is_number (anno_y anno)
         then Some (ReferenceLine key (JNum (to_number (anno_y anno)))
                      (or_str (stroke styleProps) ''#888'')
                      (or_str (strokeDasharray styleProps) ''3,3'')
                      (anno_label anno))
         else if anno_type anno = Some ''dot'' \<and> anno_x anno \<noteq> None \<and> anno_y anno \<noteq> None
         then Some (ReferenceDot key (anno_x anno) (anno_y anno)
                      (or_val (radius styleProps) (JNum (Fin 5)))
                      (or_str (stroke styleProps) ''red'')
                      (or_str (fill styleProps) ''white'')
                      (anno_label anno))
         else None)"

text \<open>
  \<open>renderAnnotations\<close>: \<open>null\<close> (\<open>None\<close>) when there is no array of annotations or it is
  empty, and else the array of what each annotation gives, \<open>null\<close> entries included.
  The arguments \<open>chartType\<close> and \<open>xAxisKey\<close> are not read.
\<close>

definition renderAnnotations ::
  "annotation list option \<Rightarrow> row list \<Rightarrow> string option \<Rightarrow> element option list option" where
  "renderAnnotations annotations data yAxisKey =
     (case annotations of
        None \<Rightarrow> None
      | Some annos \<Rightarrow>
          if annos = [] then None
          else Some (map (\<lambda>(idx, anno). render_annotation data yAxisKey idx anno)
                       (enumerate 0 annos)))"

text \<open>
  The annotations of \<open>BarChartComponent\<close> and of \<open>LineChartComponent\<close>: nothing is
  drawn for no data, and the Y axis of the annotations is the first numeric column of
  the first row.
\<close>

definition chart_annotations :: "row list \<Rightarrow> vizConfig \<Rightarrow> element option list option" where
  "chart_annotations data config =
     (case data of
        [] \<Rightarrow> None
      | d0 # _ \<Rightarrow>
          (let xAxisKey = cleanKey (case viz_axes config of None \<Rightarrow> None | Some a \<Rightarrow> axis_x a);
               numericCols = getNumericColumns (Some d0) xAxisKey
           in renderAnnotations (viz_annotations config) data
                (case numericCols of [] \<Rightarrow> None | c # _ \<Rightarrow> Some c)))"

section \<open>The export\<close>

text \<open>The state that the export reads and changes: the active tab, the files downloaded.\<close>

record ui_state =
  activeTab :: string
  downloads :: "(string \<times> string) list"

fun split_on :: "char \<Rightarrow> string \<Rightarrow> string list" where
  "split_on sep [] = [[]]"
| "split_on sep (c # cs) =
     (if c = sep then [] # split_on sep cs
      else (case split_on sep cs of [] \<Rightarrow> [[c]] | seg # segs \<Rightarrow> (c # seg) # segs))"

text \<open>
  \<open>parseInt(s, 10)\<close>, where \<open>None\<close> is \<open>NaN\<close>: leading white space, a sign, and the digits
  up to the first other character.
\<close>

definition parseInt10 :: "string option \<Rightarrow> int option" where
  "parseInt10 s =
     (let t = dropWhile is_space (case s of None \<Rightarrow> ''undefined'' | Some u \<Rightarrow> u);
          neg = (t \<noteq> [] \<and> hd t = CHR ''-'');
          u = (if t \<noteq> [] \<and> (hd t = CHR ''-'' \<or> hd t = CHR ''+'') then tl t else t);
          ds = takeWhile is_digit u
      in if ds = [] then None
         else Some (if neg then - int (dec_value ds) else int (dec_value ds)))"

text \<open>\<open>visualizations?.[parseInt(activeTab.split("-")[1], 10)]\<close>\<close>

definition currentViz :: "vizConfig list option \<Rightarrow> string \<Rightarrow> vizConfig option" where
  "currentViz visualizations tab =
     (case visualizations of
        None \<Rightarrow> None
      | Some vs \<Rightarrow>
          (let segs = split_on (CHR ''-'') tab;
               i = parseInt10 (if 1 < length segs then Some (segs ! 1) else None)
           in (case i of
                 None \<Rightarrow> None
               | Some n \<Rightarrow> if 0 \<le> n \<and> nat n < length vs then Some (vs ! nat n) else None)))"

text \<open>\<open>val.replace(/"/g, '""')\<close>\<close>

definition double_quotes :: "string \<Rightarrow> string" where
  "double_quotes s = concat (map (\<lambda>c. if c = CHR 0x22 then [c, c] else [c]) s)"

text \<open>
  One cell of a data row: \<open>row[col] ?? ""\<close>, quoted when it is a string, and else as
  \<open>join\<close> prints it.
\<close>

definition csv_cell :: "jsval option \<Rightarrow> string" where
  "csv_cell v =
     (case or_else v (JStr []) of
        JStr s \<Rightarrow> [CHR 0x22] @ double_quotes s @ [CHR 0x22]
      | w \<Rightarrow> to_string (Some w))"

text \<open>The columns of the export, from the first row of the data as it came.\<close>

definition export_columns :: "row list option \<Rightarrow> string list" where
  "export_columns data =
     filter (\<lambda>col. \<not> startsWith col ''_'' \<and> col \<notin> set [''color'', ''name'', ''value''])
       (case data of Some (d0 # _) \<Rightarrow> map fst d0 | _ \<Rightarrow> [])"

definition csv_text :: "string list \<Rightarrow> row list \<Rightarrow> string" where
  "csv_text columns processedData =
     join [CHR 0x0A]
       (join '','' columns #
        map (\<lambda>r. join '','' (map (\<lambda>col. csv_cell (map_of r col)) columns)) processedData)"

function hyphenate :: "string \<Rightarrow> string" where
  "hyphenate [] = []"
| "hyphenate (c # cs) =
     (if is_space c then CHR ''-'' # hyphenate (dropWhile is_space cs) else c # hyphenate cs)"
  by pat_completeness auto
termination
  by (relation "measure length") (auto simp: length_dropWhile_le less_Suc_eq_le)

text \<open>\<open>`${title.toLowerCase().replace(/\s+/g, "-")}.csv`\<close>\<close>

definition file_name :: "string \<Rightarrow> string" where
  "file_name title = hyphenate (toLowerCase title) @ ''.csv''"

text \<open>
  \<open>handleExport\<close> of \<open>MultiVisualization\<close>. The download of the file is the only effect;
  it is recorded in the state.
\<close>

definition handleExport ::
  "row list option \<Rightarrow> vizConfig list option \<Rightarrow> string \<Rightarrow> ui_state \<Rightarrow> ui_state" where
  "handleExport data visualizations title st =
     (case currentViz visualizations (activeTab st) of
        None \<Rightarrow> st
      | Some cv \<Rightarrow>
          (let processedData = useProcessedData data (Some cv)
           in if processedData = [] then st
              else st\<lparr>downloads := downloads st @
                     [(file_name title, csv_text (export_columns data) processedData)]\<rparr>))"

section \<open>The earlier components\<close>

text \<open>
  The first \<open>MultiVisualization\<close> component has its own \<open>processData\<close> and
  \<open>handleExport\<close>, and \<open>AdvancedVisualization\<close> its own \<open>generateAnnotations\<close>.
\<close>

definition COLORS_first :: "string list" where
  "COLORS_first =
     [''#0088FE'', ''#00C49F'', ''#FFBB28'', ''#FF8042'',
      ''#8884d8'', ''#82ca9d'', ''#ffc658'', ''#ff8042'',
      ''#00C49F'', ''#FFBB28'', ''#FF8042'', ''#0088FE'']"

text \<open>\<open>s.split(sep)[0]\<close> for a separator that is not empty.\<close>

fun before_sep :: "string \<Rightarrow> string \<Rightarrow> string" where
  "before_sep sep [] = []"
| "before_sep sep (c # cs) = (if startsWith (c # cs) sep then [] else c # before_sep sep cs)"

text \<open>\<open>axes?.x ? axes.x.split(' as ')[0].trim() : null\<close>\<close>

definition alias_key :: "string option \<Rightarrow> string option" where
  "alias_key a =
     (case a of None \<Rightarrow> None
      | Some k \<Rightarrow> if k = [] then None else Some (trim (before_sep '' as '' k)))"

datatype js_error = TypeError

text \<open>\<open>processData\<close> of the first \<open>MultiVisualization\<close>.\<close>

definition process_item :: "string option \<Rightarrow> nat \<Rightarrow> row \<Rightarrow> row" where
  "process_item xAxisKey index item =
     (let processed =
            foldl (\<lambda>p key. case map_of item key of
                              Some (JNum n) \<Rightarrow> AList.update key (JNum (toFixed2 n)) p
                            | _ \<Rightarrow> p)
              item (map fst item);
          name =
            (if truthy_str xAxisKey \<and> map_of item (prop_key xAxisKey) \<noteq> None
             then JStr (to_string (map_of item (prop_key xAxisKey)))
             else if truthy (map_of item ''employeeName'')
             then or_val (map_of item ''employeeName'') JNull
             else JStr ''N/A'')
      in AList.update ''color'' (JStr (COLORS_first ! (index mod length COLORS_first)))
           (AList.update ''name'' name processed))"

definition processData :: "row list option \<Rightarrow> vizConfig \<Rightarrow> row list" where
  "processData data vizConfig =
     (case data of
        None \<Rightarrow> []
      | Some rows \<Rightarrow>
          map (\<lambda>(index, item).
                 process_item
                   (alias_key (case viz_axes vizConfig of None \<Rightarrow> None | Some a \<Rightarrow> axis_x a))
                   index item)
            (enumerate 0 rows))"

text \<open>
  One cell of that export: \<open>typeof value === 'number' ? value : `"${value}"`\<close>
\<close>

definition csv_cell_first :: "jsval \<Rightarrow> string" where
  "csv_cell_first v =
     (case v of
        JNum n \<Rightarrow> num_to_string n
      | _ \<Rightarrow> [CHR 0x22] @ to_string (Some v) @ [CHR 0x22])"

definition csv_text_first :: "row \<Rightarrow> row list \<Rightarrow> string" where
  "csv_text_first first_row processedData =
     join [CHR 0x0A]
       (join '','' (filter (\<lambda>key. \<not> startsWith key ''_'') (map fst first_row)) #
        map (\<lambda>r. join '','' (map (\<lambda>(key, v). csv_cell_first v)
                                 (filter (\<lambda>(key, v). \<not> startsWith key ''_'') r)))
          processedData)"

text \<open>
  \<open>handleExport\<close> of the first \<open>MultiVisualization\<close>. \<open>Object.keys(processedData[0])\<close>
  throws a \<open>TypeError\<close> when no row was processed.
\<close>

definition handleExport_first ::
  "row list option \<Rightarrow> vizConfig list \<Rightarrow> string \<Rightarrow> ui_state \<Rightarrow> js_error + ui_state" where
  "handleExport_first data visualizations title st =
     (case currentViz (Some visualizations) (activeTab st) of
        None \<Rightarrow> Inr st
      | Some cv \<Rightarrow>
          (case processData data cv of
             [] \<Rightarrow> Inl TypeError
           | p0 # ps \<Rightarrow>
               Inr (st\<lparr>downloads := downloads st @
                      [(file_name title, csv_text_first p0 (p0 # ps))]\<rparr>)))"

text \<open>The case-sensitive \<open>/\s+DESC\s*$/\<close> of \<open>generateAnnotations\<close>.\<close>

definition desc_suffix :: "string \<Rightarrow> bool" where
  "desc_suffix u \<longleftrightarrow>
     takeWhile is_space u \<noteq> [] \<and>
     rev (dropWhile is_space (rev (dropWhile is_space u))) = ''DESC''"

fun strip_desc :: "string \<Rightarrow> string" where
  "strip_desc [] = []"
| "strip_desc (c # cs) = (if desc_suffix (c # cs) then [] else c # strip_desc cs)"

record line_annotation =
  la_value :: jsnum
  la_label :: string
  la_style :: style

text \<open>
  The average of \<open>generateAnnotations\<close>. Reading \<open>config.axes.y\<close> throws in the callback
  of \<open>data.map\<close> when the axis is not configured, so only when there is a row.
\<close>

definition average_first :: "row list \<Rightarrow> vizConfig \<Rightarrow> js_error + jsnum" where
  "average_first data config =
     (if data = [] then Inr (div_count (Fin 0) 0)
      else (case (case viz_axes config of None \<Rightarrow> None | Some a \<Rightarrow> axis_y a) of
              None \<Rightarrow> Inl TypeError
            | Some y \<Rightarrow>
                Inr (div_count
                       (foldl num_add (Fin 0)
                          (map (\<lambda>item. to_number (map_of item (strip_desc y))) data))
                       (length data))))"

fun generate_each :: "row list \<Rightarrow> vizConfig \<Rightarrow> annotation list \<Rightarrow> js_error + line_annotation list"
  where
  "generate_each data config [] = Inr []"
| "generate_each data config (a # as) =
     (if anno_mode a = Some ''average'' then
        (case average_first data config of
           Inl e \<Rightarrow> Inl e
         | Inr avg \<Rightarrow>
             (case generate_each data config as of
                Inl e \<Rightarrow> Inl e
              | Inr rest \<Rightarrow>
                  Inr (\<lparr>la_value = avg, la_label = or_str (anno_label a) ''Average'',
                        la_style = (case anno_style a of
                                      None \<Rightarrow> empty_style\<lparr>stroke := Some ''#666'',
                                                strokeDasharray := Some ''3 3''\<rparr>
                                    | Some st \<Rightarrow> st)\<rparr> # rest)))
      else generate_each data config as)"

definition generateAnnotations :: "row list \<Rightarrow> vizConfig \<Rightarrow> js_error + line_annotation list" where
  "generateAnnotations data config =
     (case viz_annotations config of None \<Rightarrow> Inr [] | Some annos \<Rightarrow> generate_each data config annos)"

section \<open>What the specification says, in its own terms\<close>

text \<open>
  The field of a row as the normalization copies it: dropped when its key starts with
  \<open>_\<close>, formatted otherwise.
\<close>

definition spec_field :: "row \<Rightarrow> string \<Rightarrow> jsval option" where
  "spec_field r k = (if startsWith k ''_'' then None else map_option formatNumber (map_of r k))"

text \<open>A number with at most two decimals.\<close>

definition two_decimals :: "rat \<Rightarrow> bool" where
  "two_decimals q \<longleftrightarrow> q * 100 = of_int \<lfloor>q * 100\<rfloor>"

text \<open>A value that is a finite number.\<close>

fun finite_number :: "jsval \<Rightarrow> bool" where
  "finite_number (JNum (Fin q)) = True"
| "finite_number v = False"

text \<open>
  The fallback chain of the derived \<open>value\<close>: the column of the Y axis when it is a
  number, else the field \<open>value\<close>, else the field \<open>percentage\<close>, else \<open>0\<close>. The name of
  the row is a string by then, so a Y axis called \<open>name\<close> is never a number.
\<close>

definition spec_value :: "string \<Rightarrow> row \<Rightarrow> jsval" where
  "spec_value yKey r =
     (if yKey \<noteq> ''name'' \<and> is_number (spec_field r yKey)
      then or_else (spec_field r yKey) JNull
      else if \<not> nullish (spec_field r ''value'') then or_else (spec_field r ''value'') JNull
      else if \<not> nullish (spec_field r ''percentage'')
      then or_else (spec_field r ''percentage'') JNull
      else JNum (Fin 0))"

text \<open>A field that is a number, \<open>null\<close> or not there.\<close>

definition number_or_absent :: "jsval option \<Rightarrow> bool" where
  "number_or_absent v \<longleftrightarrow> is_number v \<or> nullish v"

text \<open>
  The arithmetic mean of a column over all rows, where a value that is missing or not a
  finite number counts as \<open>0\<close>, and the mean over no row is \<open>0\<close>.
\<close>

definition spec_contribution :: "string \<Rightarrow> row \<Rightarrow> rat" where
  "spec_contribution yKey d = (case map_of d yKey of Some (JNum (Fin q)) \<Rightarrow> q | _ \<Rightarrow> 0)"

definition spec_mean :: "row list \<Rightarrow> string \<Rightarrow> rat" where
  "spec_mean rows yKey =
     (if rows = [] then 0
      else sum_list (map (spec_contribution yKey) rows) / of_nat (length rows))"

text \<open>A column value that is missing, \<open>null\<close>, \<open>NaN\<close> or a finite number.\<close>

definition finite_or_missing :: "string \<Rightarrow> row \<Rightarrow> bool" where
  "finite_or_missing yKey d =
     (case map_of d yKey of
        None \<Rightarrow> True
      | Some JNull \<Rightarrow> True
      | Some (JNum (Fin q)) \<Rightarrow> True
      | Some (JNum NaN) \<Rightarrow> True
      | _ \<Rightarrow> False)"

text \<open>The observed value of a column in a row, a missing one counting as \<open>0\<close>.\<close>

definition spec_observed :: "string \<Rightarrow> row \<Rightarrow> jsnum" where
  "spec_observed yKey d = (case map_of d yKey of Some (JNum n) \<Rightarrow> n | _ \<Rightarrow> Fin 0)"

text \<open>A column value that is missing, \<open>null\<close> or a number other than \<open>NaN\<close>.\<close>

definition number_or_missing :: "string \<Rightarrow> row \<Rightarrow> bool" where
  "number_or_missing yKey d =
     (case map_of d yKey of
        None \<Rightarrow> True
      | Some JNull \<Rightarrow> True
      | Some (JNum n) \<Rightarrow> n \<noteq> NaN
      | _ \<Rightarrow> False)"

text \<open>The elements that are drawn: the entries of the returned array that are not \<open>null\<close>.\<close>

definition emitted :: "element option list option \<Rightarrow> element list" where
  "emitted res = (case res of None \<Rightarrow> [] | Some es \<Rightarrow> List.map_filter (\<lambda>e. e) es)"

text \<open>
  Reading the body of a quoted CSV field back: two double quotes stand for one.
\<close>

fun undouble :: "string \<Rightarrow> string" where
  "undouble (a # b # cs) =
     (if a = CHR 0x22 \<and> b = CHR 0x22 then a # undouble cs else a # undouble (b # cs))"
| "undouble cs = cs"

text \<open>A trailing sort direction as the specification describes it.\<close>

definition sort_word :: "string \<Rightarrow> bool" where
  "sort_word t \<longleftrightarrow> toLowerCase t \<in> {''asc'', ''desc''}"

definition all_space :: "string \<Rightarrow> bool" where
  "all_space w \<longleftrightarrow> list_all is_space w"

section \<open>Example data\<close>

definition sales_config :: vizConfig where
  "sales_config =
     \<lparr>viz_type = Some ''bar'',
      viz_axes = Some \<lparr>axis_x = Some ''region'', axis_y = Some ''q1 DESC''\<rparr>,
      viz_annotations = None\<rparr>"

definition sales_rows :: "row list" where
  "sales_rows =
     [[(''region'', JStr ''west''), (''q1'', JNum (Fin 10)), (''q2'', JNum (Fin 20))],
      [(''region'', JStr ''east''), (''q1'', JNum (Fin (150375 / 1000))), (''_id'', JNum (Fin 7))]]"

definition status_config :: vizConfig where
  "status_config =
     \<lparr>viz_type = Some ''pie'',
      viz_axes = Some \<lparr>axis_x = Some ''status'', axis_y = Some ''count''\<rparr>,
      viz_annotations = None\<rparr>"

definition status_rows :: "row list" where
  "status_rows =
     [[(''status'', JStr ''open''), (''value'', JStr ''high'')],
      [(''status'', JStr ''done''), (''percentage'', JNum (Fin (12375 / 1000)))]]"

definition average_line :: annotation where
  "average_line =
     \<lparr>anno_type = Some ''line'', anno_mode = Some ''average'', anno_x = None, anno_y = None,
      anno_label = None, anno_style = None\<rparr>"

definition trend_line :: annotation where
  "trend_line =
     \<lparr>anno_type = Some ''line'', anno_mode = Some ''trend'', anno_x = None, anno_y = None,
      anno_label = None, anno_style = None\<rparr>"

definition dot_without_y :: annotation where
  "dot_without_y =
     \<lparr>anno_type = Some ''dot'', anno_mode = None, anno_x = Some (JNum (Fin 5)), anno_y = None,
      anno_label = None, anno_style = None\<rparr>"

definition y_rows :: "row list" where
  "y_rows = [[(''y'', JNum (Fin 10))], [(''y'', JNum (Fin 20))], [(''y'', JNum (Fin 30))]]"

definition text_rows :: "row list" where
  "text_rows = [[(''y'', JStr ''abc'')], [(''y'', JNum (Fin 10))]]"

definition employee_config :: vizConfig where
  "employee_config =
     \<lparr>viz_type = Some ''bar'',
      viz_axes = Some \<lparr>axis_x = Some ''employeeName'', axis_y = Some ''totalSales''\<rparr>,
      viz_annotations = None\<rparr>"

text \<open>One row, whose name is \<open>Bob "The Closer" Smith\<close>.\<close>

definition quoted_rows :: "row list" where
  "quoted_rows =
     [[(''employeeName'', JStr (''Bob '' @ [CHR 0x22] @ ''The Closer'' @ [CHR 0x22] @ '' Smith'')),
       (''totalSales'', JNum (Fin (150375 / 1000)))]]"

definition first_tab :: ui_state where
  "first_tab = \<lparr>activeTab = ''option-0'', downloads = []\<rparr>"

section \<open>The series detector\<close>

lemma getNumericColumns_spec_example:
  "getNumericColumns
     (Some [(''region'', JStr ''west''), (''q1'', JNum (Fin 10)), (''q2'', JNum (Fin 20)),
            (''color'', JStr ''#fff''), (''name'', JStr ''west'')])
     (Some ''region'')
   = [''q1'', ''q2'']"
  by code_simp

lemma getNumericColumns_value:
  assumes "map_of r ''value'' = Some (JNum n)" "xKey \<noteq> Some ''value''"
  shows "''value'' \<in> set (getNumericColumns (Some r) xKey)"
proof -
  from assms(1) have "(''value'', JNum n) \<in> set r" by (rule map_of_SomeD)
  then have "''value'' \<in> fst ` set r" by force
  with assms show ?thesis by (auto simp: getNumericColumns_def)
qed

text \<open>
  Claim C3 says that \<open>getNumericColumns\<close> returns the numeric keys of the sample row
  without the key of the X axis and without the three derived keys \<open>color\<close>, \<open>name\<close> and
  \<open>value\<close>. The function leaves \<open>color\<close> and \<open>name\<close> out but not \<open>value\<close>: on every row that
  \<open>useProcessedData\<close> has normalized, whose \<open>value\<close> is a number, it returns \<open>value\<close> as
  one more series. Here it does so on the two normalized rows of the example.
\<close>

theorem getNumericColumns_keeps_value:
  "map (\<lambda>r. getNumericColumns (Some r) (Some ''region''))
     (useProcessedData (Some sales_rows) (Some sales_config))
   = [[''q1'', ''q2'', ''value''], [''q1'', ''value'']]"
  by code_simp

section \<open>The export guard\<close>

text \<open>
  Claim C10: when the configuration of the active tab is absent, or no row was
  normalized, \<open>handleExport\<close> returns at once: no file is produced and the state is as it
  was.
\<close>

theorem handleExport_nothing:
  "currentViz visualizations (activeTab st) = None \<or>
   useProcessedData data (currentViz visualizations (activeTab st)) = []
   \<Longrightarrow> handleExport data visualizations title st = st"
  by (auto simp: handleExport_def split: option.splits)

theorem handleExport_nothing_witness:
  "currentViz (Some [sales_config]) (activeTab first_tab) = Some sales_config \<and>
   useProcessedData (Some []) (currentViz (Some [sales_config]) (activeTab first_tab)) = [] \<and>
   handleExport (Some []) (Some [sales_config]) ''Sales'' first_tab = first_tab"
proof -
  have c: "currentViz (Some [sales_config]) (activeTab first_tab) = Some sales_config"
    by code_simp
  have h: "useProcessedData (Some []) (currentViz (Some [sales_config]) (activeTab first_tab)) = []"
    by (simp add: useProcessedData_def)
  have "handleExport (Some []) (Some [sales_config]) ''Sales'' first_tab = first_tab"
    by (rule handleExport_nothing) (rule disjI2, rule h)
  with c h show ?thesis by simp
qed

section \<open>Row normalization\<close>

lemma round2_two_decimals: "two_decimals (round2 q)"
  by (simp add: two_decimals_def round2_def)

lemma round2_near: "\<bar>round2 q - q\<bar> \<le> 1 / 200"
proof -
  have near: "\<bar>of_int \<lfloor>x + 1 / 2\<rfloor> - x\<bar> \<le> 1 / 2" for x :: rat
    by linarith
  show ?thesis
  proof (cases "q < 0")
    case True
    from near [of "(- q) * 100"] True show ?thesis
      by (simp add: round2_def abs_if field_simps split: if_splits)
  next
    case False
    from near [of "q * 100"] False show ?thesis
      by (simp add: round2_def abs_if field_simps split: if_splits)
  qed
qed

lemma formatNumber_NaN: "formatNumber v = JNum NaN \<Longrightarrow> v = JNum NaN"
  by (cases v rule: formatNumber.cases) (auto elim: toFixed2.elims)

lemma formatNumber_finite:
  "formatNumber v = JNum (Fin q) \<Longrightarrow> two_decimals q"
  by (cases v rule: formatNumber.cases) (auto elim!: toFixed2.elims simp: round2_two_decimals)

lemma set_update_subset: "set (AList.update k v al) \<subseteq> insert (k, v) (set al)"
  by (induction al) auto

lemma copy_loop_lookup:
  "distinct (map fst r) \<Longrightarrow>
   map_of (foldl (\<lambda>processed (key, v).
              if startsWith key ''_'' then processed
              else AList.update key (formatNumber v) processed) acc r) k =
   (case map_of r k of
      None \<Rightarrow> map_of acc k
    | Some v \<Rightarrow> if startsWith k ''_'' then map_of acc k else Some (formatNumber v))"
proof (induction r arbitrary: acc)
  case Nil
  then show ?case by simp
next
  case (Cons p r)
  obtain k' v' where p: "p = (k', v')" by (cases p)
  from Cons.prems p have d: "distinct (map fst r)" and nk: "k' \<notin> fst ` set r" by auto
  from nk have none: "map_of r k' = None" by (simp add: map_of_eq_None_iff)
  show ?case
    using Cons.IH [OF d] none by (auto simp: p update_conv' split: option.splits)
qed

lemma copy_fields_lookup:
  "distinct (map fst r) \<Longrightarrow> map_of (copy_fields r) k = spec_field r k"
  by (simp add: copy_fields_def copy_loop_lookup spec_field_def split: option.splits)

lemma copy_loop_values:
  "(k, v) \<in> set (foldl (\<lambda>processed (key, v).
              if startsWith key ''_'' then processed
              else AList.update key (formatNumber v) processed) acc r) \<Longrightarrow>
   (k, v) \<in> set acc \<or> (\<exists>v'. (k, v') \<in> set r \<and> v = formatNumber v')"
proof (induction r arbitrary: acc)
  case Nil
  then show ?case by simp
next
  case (Cons p r)
  obtain k' v' where p: "p = (k', v')" by (cases p)
  show ?case
  proof (cases "startsWith k' ''_''")
    case True
    with Cons.prems p have "(k, v) \<in> set (foldl (\<lambda>processed (key, v).
              if startsWith key ''_'' then processed
              else AList.update key (formatNumber v) processed) acc r)" by simp
    from Cons.IH [OF this] show ?thesis by auto
  next
    case False
    with Cons.prems p have "(k, v) \<in> set (foldl (\<lambda>processed (key, v).
              if startsWith key ''_'' then processed
              else AList.update key (formatNumber v) processed) (AList.update k' (formatNumber v') acc) r)" by simp
    from Cons.IH [OF this] set_update_subset [of k' "formatNumber v'" acc] p show ?thesis
      by auto
  qed
qed

lemma copy_fields_values:
  "(k, v) \<in> set (copy_fields r) \<Longrightarrow> \<exists>v'. (k, v') \<in> set r \<and> v = formatNumber v'"
  using copy_loop_values [of k v "[]" r] by (simp add: copy_fields_def)

lemma useProcessedData_nth:
  "i < length rows \<Longrightarrow>
   useProcessedData (Some rows) cfg ! i =
   process_row (xAxisKey_of cfg) (yAxisKey_of cfg) i (rows ! i)"
  by (auto simp: useProcessedData_def nth_enumerate_eq)

lemma useProcessedData_length: "length (useProcessedData (Some rows) cfg) = length rows"
  by (simp add: useProcessedData_def)

lemma process_row_lookup:
  "k \<noteq> ''name'' \<Longrightarrow> k \<noteq> ''value'' \<Longrightarrow> k \<noteq> ''color'' \<Longrightarrow>
   map_of (process_row x y i r) k = map_of (copy_fields r) k"
  by (simp add: process_row_def Let_def update_conv')

lemma process_row_value:
  "map_of (process_row x y i r) ''value'' =
   Some (row_value y (AList.update ''name'' (JStr (row_name x i (copy_fields r))) (copy_fields r)))"
  by (simp add: process_row_def Let_def update_conv')

lemma row_value_spec:
  assumes "distinct (map fst r)"
  shows "row_value y (AList.update ''name'' (JStr n) (copy_fields r)) = spec_value (prop_key y) r"
proof -
  have v: "map_of (AList.update ''name'' (JStr n) (copy_fields r)) ''value'' = spec_field r ''value''"
    by (simp add: update_conv' copy_fields_lookup [OF assms])
  have p: "map_of (AList.update ''name'' (JStr n) (copy_fields r)) ''percentage'' =
           spec_field r ''percentage''"
    by (simp add: update_conv' copy_fields_lookup [OF assms])
  have y: "map_of (AList.update ''name'' (JStr n) (copy_fields r)) (prop_key y) =
           (if prop_key y = ''name'' then Some (JStr n) else spec_field r (prop_key y))"
    by (simp add: update_conv' copy_fields_lookup [OF assms])
  show ?thesis
    unfolding row_value_def spec_value_def v p y
    by (cases "spec_field r (prop_key y)" rule: is_number.cases;
        cases "spec_field r ''value''" rule: nullish.cases;
        cases "spec_field r ''percentage''" rule: nullish.cases)
       (auto simp: or_else_def coalesce_def split: jsval.splits)
qed

lemma row_value_origin:
  "row_value y p = JNum (Fin 0) \<or> (\<exists>k. (k, row_value y p) \<in> set p)"
  unfolding row_value_def or_else_def coalesce_def
  by (auto split: option.splits jsval.splits dest: map_of_SomeD)

lemma process_row_values:
  assumes "(k, w) \<in> set (process_row x y i r)"
  shows "(\<exists>s. w = JStr s) \<or> w = JNum (Fin 0) \<or> (\<exists>k' v'. (k', v') \<in> set r \<and> w = formatNumber v')"
proof -
  define n where "n = JStr (row_name x i (copy_fields r))"
  define p1 where "p1 = AList.update ''name'' n (copy_fields r)"
  have in1: "(\<exists>s. u = JStr s) \<or> (\<exists>k' v'. (k', v') \<in> set r \<and> u = formatNumber v')"
    if "(j, u) \<in> set p1" for j u
    using that set_update_subset [of "''name''" n "copy_fields r"] copy_fields_values [of j u r]
    by (auto simp: p1_def n_def)
  from assms have "(k, w) \<in> set (AList.update ''color''
           (JStr (COLORS_categorical ! (i mod length COLORS_categorical)))
           (AList.update ''value'' (row_value y p1) p1))"
    by (simp add: process_row_def Let_def p1_def n_def)
  then have "(\<exists>s. w = JStr s) \<or> w = row_value y p1 \<or> (k, w) \<in> set p1"
    using set_update_subset [of "''color''" "JStr (COLORS_categorical ! (i mod length COLORS_categorical))"
            "AList.update ''value'' (row_value y p1) p1"]
          set_update_subset [of "''value''" "row_value y p1" p1]
    by auto
  with in1 row_value_origin [of y p1] show ?thesis by metis
qed

text \<open>
  Claim C1: for every list of rows and every configuration, \<open>useProcessedData\<close> returns
  as many rows as it was given, in the order of the input: the row at index \<open>i\<close> is the
  normalization of the input row at index \<open>i\<close>, and it carries the fields of that input
  row (formatted, those starting with \<open>_\<close> dropped) under every key but the three derived
  ones. For an absent and for an empty list it returns the empty list.
\<close>

theorem useProcessedData_length_order:
  "useProcessedData None cfg = [] \<and> useProcessedData (Some []) cfg = [] \<and>
   length (useProcessedData (Some rows) cfg) = length rows \<and>
   (\<forall>i<length rows.
      useProcessedData (Some rows) cfg ! i =
        process_row (xAxisKey_of cfg) (yAxisKey_of cfg) i (rows ! i) \<and>
      (distinct (map fst (rows ! i)) \<longrightarrow>
         (\<forall>k. k \<notin> {''name'', ''value'', ''color''} \<longrightarrow>
              map_of (useProcessedData (Some rows) cfg ! i) k = spec_field (rows ! i) k)))"
proof -
  have "useProcessedData None cfg = []" "useProcessedData (Some []) cfg = []"
    by (simp_all add: useProcessedData_def)
  moreover have "map_of (useProcessedData (Some rows) cfg ! i) k = spec_field (rows ! i) k"
    if "i < length rows" "distinct (map fst (rows ! i))" "k \<notin> {''name'', ''value'', ''color''}"
    for i k
    using that by (simp add: useProcessedData_nth process_row_lookup copy_fields_lookup)
  ultimately show ?thesis
    by (simp add: useProcessedData_length useProcessedData_nth)
qed

theorem useProcessedData_length_order_witness:
  "1 < length sales_rows \<and> distinct (map fst (sales_rows ! 1)) \<and>
   length (useProcessedData (Some sales_rows) (Some sales_config)) = 2 \<and>
   map_of (useProcessedData (Some sales_rows) (Some sales_config) ! 1) ''q1''
     = Some (JNum (Fin (15038 / 100))) \<and>
   map_of (useProcessedData (Some sales_rows) (Some sales_config) ! 1) ''region''
     = Some (JStr ''east'') \<and>
   map_of (useProcessedData (Some sales_rows) (Some sales_config) ! 1) ''_id'' = None"
proof -
  have h1: "1 < length sales_rows" by (simp add: sales_rows_def)
  have h2: "distinct (map fst (sales_rows ! 1))" by (simp add: sales_rows_def)
  note t = useProcessedData_length_order [of "Some sales_config" sales_rows]
  from t have len: "length (useProcessedData (Some sales_rows) (Some sales_config)) = 2"
    by (simp add: sales_rows_def)
  from t h1 h2 have f: "map_of (useProcessedData (Some sales_rows) (Some sales_config) ! 1) k
      = spec_field (sales_rows ! 1) k" if "k \<notin> {''name'', ''value'', ''color''}" for k
    using that by blast
  have "spec_field (sales_rows ! 1) ''q1'' = Some (JNum (Fin (15038 / 100)))"
       "spec_field (sales_rows ! 1) ''region'' = Some (JStr ''east'')"
       "spec_field (sales_rows ! 1) ''_id'' = None"
    by code_simp+
  with f [of "''q1''"] f [of "''region''"] f [of "''_id''"] h1 h2 len show ?thesis
    by simp
qed

text \<open>The rounding loop of the first \<open>processData\<close> formats every field as well.\<close>

lemma rounding_loop_lookup:
  "map_of (foldl (\<lambda>p key. case map_of item key of
                              Some (JNum n) \<Rightarrow> AList.update key (JNum (toFixed2 n)) p
                            | _ \<Rightarrow> p) acc ks) k =
   (if k \<in> set ks \<and> is_number (map_of item k) then map_option formatNumber (map_of item k)
    else map_of acc k)"
proof (induction ks arbitrary: acc)
  case Nil
  then show ?case by simp
next
  case (Cons key ks)
  show ?case
    by (cases "map_of item key" rule: is_number.cases)
       (auto simp: Cons.IH update_conv')
qed

lemma process_item_rounds:
  assumes "k \<noteq> ''name''" "k \<noteq> ''color''"
  shows "map_of (process_item x i item) k = map_option formatNumber (map_of item k)"
proof (cases "map_of item k")
  case None
  then have "k \<notin> set (map fst item)" by (simp add: map_of_eq_None_iff)
  with None assms show ?thesis
    by (simp add: process_item_def Let_def update_conv' rounding_loop_lookup)
next
  case (Some v)
  then have "k \<in> set (map fst item)" by (force dest: map_of_SomeD)
  with Some assms show ?thesis
    by (cases v) (simp_all add: process_item_def Let_def update_conv' rounding_loop_lookup)
qed

lemma round2_tie: "\<bar>round2 q - q\<bar> = 1 / 200 \<Longrightarrow> \<bar>q\<bar> \<le> \<bar>round2 q\<bar>"
proof -
  assume tie: "\<bar>round2 q - q\<bar> = 1 / 200"
  define x where "x = \<bar>q\<bar> * 100"
  define n where "n = \<lfloor>x + 1 / 2\<rfloor>"
  have x0: "0 \<le> x" by (simp add: x_def)
  have lo: "x - 1 / 2 < of_int n" unfolding n_def by linarith
  from x0 have n0: "0 \<le> n" unfolding n_def by simp
  have r: "round2 q = (if q < 0 then - (of_int n / 100) else of_int n / 100)"
    by (simp add: round2_def n_def x_def abs_if)
  from r have d: "\<bar>round2 q - q\<bar> = \<bar>of_int n - x\<bar> / 100"
    by (auto simp: x_def abs_if field_simps split: if_splits)
  from r n0 have a: "\<bar>round2 q\<bar> = of_int n / 100"
    by (auto simp: abs_if)
  from tie d have "\<bar>of_int n - x\<bar> = 1 / 2" by simp
  with lo have "x \<le> of_int n" by linarith
  then have "\<bar>q\<bar> \<le> of_int n / 100" by (simp add: x_def field_simps)
  with a show ?thesis by simp
qed

lemma processData_nth:
  "i < length rows \<Longrightarrow>
   processData (Some rows) vc ! i =
   process_item (alias_key (case viz_axes vc of None \<Rightarrow> None | Some a \<Rightarrow> axis_x a)) i (rows ! i)"
  by (auto simp: processData_def nth_enumerate_eq)

lemma processData_length: "length (processData (Some rows) vc) = length rows"
  by (simp add: processData_def)

text \<open>
  Claim C4: during row normalization every field that is a number is rounded to two
  decimals, and a value that is not a finite number passes unchanged, so no \<open>NaN\<close> is
  introduced. \<open>formatNumber\<close> takes a finite number to the nearest number with two
  decimals, away from zero at a tie, and returns \<open>NaN\<close>, an infinity, a string and \<open>null\<close>
  as they are, so \<open>NaN\<close> comes out only where \<open>NaN\<close> went in. \<open>useProcessedData\<close> puts
  under every key of an input row that is not dropped or derived the \<open>formatNumber\<close> of
  the input field under that key; every finite number of the row it returns, the derived
  \<open>value\<close> included, has two decimals, and a \<open>NaN\<close> in it was a \<open>NaN\<close> of the input row.
  \<open>processData\<close> of the first component formats the fields of its rows in the same way.
\<close>

theorem formatNumber_rounds:
  "(\<exists>r. formatNumber (JNum (Fin q)) = JNum (Fin r) \<and> two_decimals r \<and> \<bar>r - q\<bar> \<le> 1 / 200 \<and>
        (\<bar>r - q\<bar> = 1 / 200 \<longrightarrow> \<bar>q\<bar> \<le> \<bar>r\<bar>)) \<and>
   (\<not> finite_number v \<longrightarrow> formatNumber v = v) \<and>
   (formatNumber v = JNum NaN \<longrightarrow> v = JNum NaN) \<and>
   (\<forall>i<length rows. distinct (map fst (rows ! i)) \<longrightarrow>
      (\<forall>k. k \<notin> {''name'', ''value'', ''color''} \<longrightarrow>
           map_of (useProcessedData (Some rows) cfg ! i) k =
           (if startsWith k ''_'' then None else map_option formatNumber (map_of (rows ! i) k)))) \<and>
   (\<forall>i<length rows. \<forall>(k, w) \<in> set (useProcessedData (Some rows) cfg ! i).
      (\<forall>p. w = JNum (Fin p) \<longrightarrow> two_decimals p) \<and>
      (w = JNum NaN \<longrightarrow> (\<exists>k'. (k', JNum NaN) \<in> set (rows ! i)))) \<and>
   (\<forall>i<length rows. \<forall>k. k \<notin> {''name'', ''color''} \<longrightarrow>
      map_of (processData (Some rows) vc ! i) k = map_option formatNumber (map_of (rows ! i) k))"
proof -
  have a: "\<exists>r. formatNumber (JNum (Fin q)) = JNum (Fin r) \<and> two_decimals r \<and> \<bar>r - q\<bar> \<le> 1 / 200 \<and>
        (\<bar>r - q\<bar> = 1 / 200 \<longrightarrow> \<bar>q\<bar> \<le> \<bar>r\<bar>)"
    using round2_near [of q] round2_tie [of q] by (simp add: round2_two_decimals)
  have b: "\<not> finite_number v \<longrightarrow> formatNumber v = v"
    by (cases v rule: finite_number.cases) auto
  have c: "formatNumber v = JNum NaN \<longrightarrow> v = JNum NaN"
    by (simp add: formatNumber_NaN)
  have f: "map_of (useProcessedData (Some rows) cfg ! i) k =
           (if startsWith k ''_'' then None else map_option formatNumber (map_of (rows ! i) k))"
    if "i < length rows" "distinct (map fst (rows ! i))" "k \<notin> {''name'', ''value'', ''color''}"
    for i k
    using that
    by (simp add: useProcessedData_nth process_row_lookup copy_fields_lookup spec_field_def)
  have d: "(\<forall>p. w = JNum (Fin p) \<longrightarrow> two_decimals p) \<and>
           (w = JNum NaN \<longrightarrow> (\<exists>k'. (k', JNum NaN) \<in> set (rows ! i)))"
    if "i < length rows" "(k, w) \<in> set (useProcessedData (Some rows) cfg ! i)" for i k w
  proof -
    from that have "(k, w) \<in> set (process_row (xAxisKey_of cfg) (yAxisKey_of cfg) i (rows ! i))"
      by (simp add: useProcessedData_nth)
    from process_row_values [OF this] show ?thesis
      by (auto simp: two_decimals_def dest: formatNumber_finite formatNumber_NaN)
  qed
  have e: "map_of (processData (Some rows) vc ! i) k = map_option formatNumber (map_of (rows ! i) k)"
    if "i < length rows" "k \<notin> {''name'', ''color''}" for i k
    using that by (simp add: processData_nth process_item_rounds)
  have F: "\<forall>i<length rows. distinct (map fst (rows ! i)) \<longrightarrow>
      (\<forall>k. k \<notin> {''name'', ''value'', ''color''} \<longrightarrow>
           map_of (useProcessedData (Some rows) cfg ! i) k =
           (if startsWith k ''_'' then None else map_option formatNumber (map_of (rows ! i) k)))"
    using f by blast
  have D: "\<forall>i<length rows. \<forall>(k, w) \<in> set (useProcessedData (Some rows) cfg ! i).
      (\<forall>p. w = JNum (Fin p) \<longrightarrow> two_decimals p) \<and>
      (w = JNum NaN \<longrightarrow> (\<exists>k'. (k', JNum NaN) \<in> set (rows ! i)))"
    using d by blast
  have E: "\<forall>i<length rows. \<forall>k. k \<notin> {''name'', ''color''} \<longrightarrow>
      map_of (processData (Some rows) vc ! i) k = map_option formatNumber (map_of (rows ! i) k)"
    using e by blast
  from a b c F D E show ?thesis by (intro conjI)
qed

theorem formatNumber_rounds_witness:
  "\<not> finite_number (JStr ''n/a'') \<and> formatNumber (JStr ''n/a'') = JStr ''n/a'' \<and>
   \<not> finite_number (JNum PosInf) \<and> formatNumber (JNum PosInf) = JNum PosInf \<and>
   1 < length sales_rows \<and> distinct (map fst (sales_rows ! 1)) \<and>
   map_of (sales_rows ! 1) ''q1'' = Some (JNum (Fin (150375 / 1000))) \<and>
   map_of (useProcessedData (Some sales_rows) (Some sales_config) ! 1) ''q1''
     = Some (JNum (Fin (15038 / 100))) \<and>
   map_of (useProcessedData (Some sales_rows) (Some sales_config) ! 1) ''_id'' = None \<and>
   map_of (processData (Some sales_rows) sales_config ! 1) ''q1''
     = Some (JNum (Fin (15038 / 100))) \<and>
   (''value'', JNum (Fin (15038 / 100))) \<in> set (useProcessedData (Some sales_rows) (Some sales_config) ! 1) \<and>
   two_decimals (15038 / 100)"
proof -
  have h1: "1 < length sales_rows" by (simp add: sales_rows_def)
  have h2: "distinct (map fst (sales_rows ! 1))" by (simp add: sales_rows_def)
  have h3: "(''value'', JNum (Fin (15038 / 100)))
      \<in> set (useProcessedData (Some sales_rows) (Some sales_config) ! 1)"
    by code_simp
  have n1: "\<not> finite_number (JStr ''n/a'')" and n2: "\<not> finite_number (JNum PosInf)" by simp_all
  have k1: "''q1'' \<notin> {''name'', ''value'', ''color''}" "''_id'' \<notin> {''name'', ''value'', ''color''}"
    "''q1'' \<notin> {''name'', ''color''}" by simp_all
  have s: "startsWith ''_id'' ''_''" "\<not> startsWith ''q1'' ''_''" by code_simp+
  have m: "map_of (sales_rows ! 1) ''q1'' = Some (JNum (Fin (150375 / 1000)))" by code_simp
  have r: "formatNumber (JNum (Fin (150375 / 1000))) = JNum (Fin (15038 / 100))" by code_simp
  note t = formatNumber_rounds [of 0 "JStr ''n/a''" sales_rows "Some sales_config" sales_config]
  note tB = t [THEN conjunct2, THEN conjunct1]
  note tF = t [THEN conjunct2, THEN conjunct2, THEN conjunct2, THEN conjunct1]
  note tD = t [THEN conjunct2, THEN conjunct2, THEN conjunct2, THEN conjunct2, THEN conjunct1]
  note tE = t [THEN conjunct2, THEN conjunct2, THEN conjunct2, THEN conjunct2, THEN conjunct2]
  from tB n1 have a: "formatNumber (JStr ''n/a'') = JStr ''n/a''" by (rule mp)
  from tD [rule_format, OF h1 h3] have b: "two_decimals (15038 / 100)" by simp
  from tF [rule_format, OF h1 h2 k1(1)] s m r
  have c: "map_of (useProcessedData (Some sales_rows) (Some sales_config) ! 1) ''q1''
     = Some (JNum (Fin (15038 / 100)))" by simp
  from tF [rule_format, OF h1 h2 k1(2)] s
  have d: "map_of (useProcessedData (Some sales_rows) (Some sales_config) ! 1) ''_id'' = None"
    by simp
  from tE [rule_format, OF h1 k1(3)] m r
  have e: "map_of (processData (Some sales_rows) sales_config ! 1) ''q1''
     = Some (JNum (Fin (15038 / 100)))" by simp
  from formatNumber_rounds [of 0 "JNum PosInf" "[]" None sales_config, THEN conjunct2, THEN conjunct1] n2
  have g: "formatNumber (JNum PosInf) = JNum PosInf" by (rule mp)
  from n1 a n2 g h1 h2 m c d e h3 b show ?thesis by (intro conjI)
qed

text \<open>
  Claim C5, amended. The claim says that the derived \<open>value\<close> of a normalized row is a
  number: the column of the Y axis when numeric, else the field \<open>value\<close> of the row, else
  its \<open>percentage\<close>, else \<open>0\<close>. The chain is as claimed, but the two fallback fields are
  taken whatever their type when they are neither \<open>null\<close> nor absent, so the result is a
  number only when those two fields are numbers, \<open>null\<close> or absent.
\<close>

theorem value_fallback_chain:
  "\<forall>i<length rows. distinct (map fst (rows ! i)) \<longrightarrow>
     map_of (useProcessedData (Some rows) cfg ! i) ''value''
       = Some (spec_value (prop_key (yAxisKey_of cfg)) (rows ! i)) \<and>
     (number_or_absent (spec_field (rows ! i) ''value'') \<and>
      number_or_absent (spec_field (rows ! i) ''percentage'')
      \<longrightarrow> is_number (Some (spec_value (prop_key (yAxisKey_of cfg)) (rows ! i))))"
proof (intro allI impI conjI)
  fix i assume "i < length rows" "distinct (map fst (rows ! i))"
  then show "map_of (useProcessedData (Some rows) cfg ! i) ''value''
       = Some (spec_value (prop_key (yAxisKey_of cfg)) (rows ! i))"
    by (simp add: useProcessedData_nth process_row_value row_value_spec)
next
  fix i
  assume "number_or_absent (spec_field (rows ! i) ''value'') \<and>
      number_or_absent (spec_field (rows ! i) ''percentage'')"
  then show "is_number (Some (spec_value (prop_key (yAxisKey_of cfg)) (rows ! i)))"
    unfolding spec_value_def number_or_absent_def
    by (cases "spec_field (rows ! i) (prop_key (yAxisKey_of cfg))" rule: is_number.cases;
        cases "spec_field (rows ! i) ''value''" rule: nullish.cases;
        cases "spec_field (rows ! i) ''percentage''" rule: nullish.cases)
       (auto simp: or_else_def split: jsval.splits)
qed

theorem value_fallback_chain_witness:
  "1 < length status_rows \<and> distinct (map fst (status_rows ! 1)) \<and>
   number_or_absent (spec_field (status_rows ! 1) ''value'') \<and>
   number_or_absent (spec_field (status_rows ! 1) ''percentage'') \<and>
   map_of (useProcessedData (Some status_rows) (Some status_config) ! 1) ''value''
     = Some (JNum (Fin (1238 / 100))) \<and>
   is_number (map_of (useProcessedData (Some status_rows) (Some status_config) ! 1) ''value'')"
proof -
  have h1: "1 < length status_rows" by (simp add: status_rows_def)
  have h2: "distinct (map fst (status_rows ! 1))" by (simp add: status_rows_def)
  have h3: "number_or_absent (spec_field (status_rows ! 1) ''value'')"
    and h4: "number_or_absent (spec_field (status_rows ! 1) ''percentage'')"
    by code_simp+
  have v: "spec_value (prop_key (yAxisKey_of (Some status_config))) (status_rows ! 1)
      = JNum (Fin (1238 / 100))"
    by code_simp
  from value_fallback_chain [of status_rows "Some status_config"] h1 h2 h3 h4
  have "map_of (useProcessedData (Some status_rows) (Some status_config) ! 1) ''value''
       = Some (spec_value (prop_key (yAxisKey_of (Some status_config))) (status_rows ! 1))"
    and "is_number (Some (spec_value (prop_key (yAxisKey_of (Some status_config))) (status_rows ! 1)))"
    by blast+
  with v h1 h2 h3 h4 show ?thesis by simp
qed

text \<open>
  Claim C5 as stated fails on a row whose own \<open>value\<close> is a string and whose Y column is
  missing: the derived \<open>value\<close> is that string.
\<close>

theorem value_is_number_counterexample:
  "map_of (useProcessedData (Some status_rows) (Some status_config) ! 0) ''value''
     = Some (JStr ''high'') \<and>
   \<not> is_number (map_of (useProcessedData (Some status_rows) (Some status_config) ! 0) ''value'')"
  by code_simp

section \<open>Key normalization\<close>

lemma space_to_lower: "is_space c \<Longrightarrow> to_lower c = c"
  by (auto simp: is_space_def to_lower_def)

lemma sort_word_no_space:
  assumes "sort_word t" "c \<in> set t"
  shows "\<not> is_space c"
proof
  assume sp: "is_space c"
  from assms have "to_lower c \<in> set ''asc'' \<union> set ''desc''"
    by (auto simp: sort_word_def toLowerCase_def)
  with space_to_lower [OF sp] have "c \<in> set ''asc'' \<union> set ''desc''" by simp
  with sp show False by (auto simp: is_space_def)
qed

lemma sort_word_nonempty: "sort_word t \<Longrightarrow> t \<noteq> []"
  by (auto simp: sort_word_def toLowerCase_def)

lemma dropWhile_none: "\<forall>c\<in>set xs. \<not> P c \<Longrightarrow> xs \<noteq> [] \<Longrightarrow> dropWhile P (xs @ ys) = xs @ ys"
  by (cases xs) auto

lemma rstrip_word:
  assumes "\<forall>c\<in>set t. \<not> is_space c" "t \<noteq> []" "all_space w'"
  shows "rev (dropWhile is_space (rev (x @ t @ w'))) = x @ t"
proof -
  from assms(3) have "\<And>c. c \<in> set (rev w') \<Longrightarrow> is_space c"
    by (simp add: all_space_def list_all_iff)
  then have "dropWhile is_space (rev w' @ (rev t @ rev x)) = dropWhile is_space (rev t @ rev x)"
    by (rule dropWhile_append2)
  then have "dropWhile is_space (rev (x @ t @ w')) = dropWhile is_space (rev t @ rev x)"
    by simp
  also from assms(1,2) have "\<dots> = rev t @ rev x"
    by (intro dropWhile_none) auto
  finally show ?thesis by simp
qed

lemma sort_suffix_intro:
  assumes "w \<noteq> []" "all_space w" "sort_word t" "all_space w'"
  shows "sort_suffix (w @ t @ w')"
proof -
  have ns: "\<forall>c\<in>set t. \<not> is_space c" using sort_word_no_space [OF assms(3)] by blast
  have ne: "t \<noteq> []" by (rule sort_word_nonempty [OF assms(3)])
  from ne obtain c cs where t: "t = c # cs" by (cases t) auto
  with ns have c: "\<not> is_space c" by simp
  from assms(2) c have tw: "takeWhile is_space (w @ t @ w') = w"
    by (simp add: all_space_def list_all_iff t takeWhile_append2)
  from assms(2) c have dw: "dropWhile is_space (w @ t @ w') = t @ w'"
    by (simp add: all_space_def list_all_iff t)
  from rstrip_word [OF ns ne assms(4), of "[]"] have "rev (dropWhile is_space (rev (t @ w'))) = t"
    by simp
  with tw dw assms(1,3) show ?thesis
    by (simp add: sort_suffix_def sort_word_def)
qed

lemma sort_suffix_elim:
  assumes "sort_suffix u"
  shows "\<exists>w t w'. u = w @ t @ w' \<and> w \<noteq> [] \<and> all_space w \<and> sort_word t \<and> all_space w'"
proof -
  define r where "r = dropWhile is_space u"
  define w where "w = takeWhile is_space u"
  define t where "t = rev (dropWhile is_space (rev r))"
  define w' where "w' = rev (takeWhile is_space (rev r))"
  have "rev (takeWhile is_space (rev r) @ dropWhile is_space (rev r)) = r"
    by (simp only: takeWhile_dropWhile_id rev_rev_ident)
  then have r: "r = t @ w'" by (simp only: rev_append t_def w'_def)
  have u: "u = w @ r" by (simp add: w_def r_def)
  have "all_space w" by (auto simp: all_space_def list_all_iff w_def dest: set_takeWhileD)
  moreover have "all_space w'" by (auto simp: all_space_def list_all_iff w'_def dest: set_takeWhileD)
  moreover from assms have "w \<noteq> []" "sort_word t"
    by (simp_all add: sort_suffix_def w_def t_def r_def sort_word_def)
  ultimately show ?thesis using u r by blast
qed

lemma sort_suffix_prefix_space:
  assumes "sort_suffix (a @ w @ t @ w')" "w \<noteq> []" "all_space w" "sort_word t" "all_space w'"
  shows "all_space a"
proof (rule ccontr)
  assume na: "\<not> all_space a"
  define a1 where "a1 = takeWhile is_space a"
  define a2 where "a2 = dropWhile is_space a"
  have a: "a = a1 @ a2" by (simp add: a1_def a2_def)
  from na have a2ne: "a2 \<noteq> []"
    by (auto simp: a2_def all_space_def list_all_iff)
  then have hd2: "\<not> is_space (hd a2)" unfolding a2_def by (rule hd_dropWhile)
  have ns: "\<forall>c\<in>set t. \<not> is_space c" using sort_word_no_space [OF assms(4)] by blast
  have ne: "t \<noteq> []" by (rule sort_word_nonempty [OF assms(4)])
  have "\<And>c. c \<in> set a1 \<Longrightarrow> is_space c"
    by (auto simp: a1_def dest: set_takeWhileD)
  then have "dropWhile is_space (a1 @ (a2 @ w @ t @ w')) = dropWhile is_space (a2 @ w @ t @ w')"
    by (rule dropWhile_append2)
  moreover from a2ne hd2 have "dropWhile is_space (a2 @ w @ t @ w') = a2 @ w @ t @ w'"
    by (cases a2) simp_all
  ultimately have "dropWhile is_space (a @ w @ t @ w') = a2 @ w @ t @ w'"
    by (simp add: a)
  moreover have "rev (dropWhile is_space (rev ((a2 @ w) @ t @ w'))) = (a2 @ w) @ t"
    by (rule rstrip_word [OF ns ne assms(5)])
  ultimately have "sort_word (a2 @ w @ t)"
    using assms(1) by (simp add: sort_suffix_def sort_word_def)
  from sort_word_no_space [OF this] have "\<forall>c\<in>set w. \<not> is_space c" by auto
  with assms(2,3) show False by (cases w) (auto simp: all_space_def)
qed

lemma strip_sort_decompose:
  assumes "w \<noteq> []" "all_space w" "sort_word t" "all_space w'"
  shows "\<exists>p' a. p = p' @ a \<and> all_space a \<and> strip_sort (p @ w @ t @ w') = p'"
proof (induction p)
  case Nil
  from sort_suffix_intro [OF assms] assms(1) show ?case
    by (cases w) (auto simp: all_space_def)
next
  case (Cons c p)
  show ?case
  proof (cases "sort_suffix ((c # p) @ w @ t @ w')")
    case True
    from sort_suffix_prefix_space [OF True assms] have "all_space (c # p)" .
    moreover from True have "strip_sort ((c # p) @ w @ t @ w') = []" by simp
    ultimately show ?thesis by blast
  next
    case False
    from Cons.IH obtain p' a where "p = p' @ a" "all_space a" "strip_sort (p @ w @ t @ w') = p'"
      by blast
    with False have "c # p = (c # p') @ a \<and> all_space a \<and> strip_sort ((c # p) @ w @ t @ w') = c # p'"
      by simp
    then show ?thesis by blast
  qed
qed

lemma trim_append_space:
  assumes "all_space a"
  shows "trim (p @ a) = trim p"
proof (cases "all_space p")
  case True
  with assms have "\<forall>c\<in>set (p @ a). is_space c" "\<forall>c\<in>set p. is_space c"
    by (auto simp: all_space_def list_all_iff)
  then have "dropWhile is_space (p @ a) = []" "dropWhile is_space p = []"
    by (simp_all only: dropWhile_eq_Nil_conv)
  then show ?thesis by (simp only: trim_def)
next
  case False
  then obtain x where "x \<in> set p" "\<not> is_space x" by (auto simp: all_space_def list_all_iff)
  then have d: "dropWhile is_space (p @ a) = dropWhile is_space p @ a"
    by (simp add: dropWhile_append1)
  from assms have "\<And>c. c \<in> set (rev a) \<Longrightarrow> is_space c"
    by (simp add: all_space_def list_all_iff)
  then have "dropWhile is_space (rev a @ rev (dropWhile is_space p)) =
             dropWhile is_space (rev (dropWhile is_space p))"
    by (rule dropWhile_append2)
  then show ?thesis by (simp only: trim_def d rev_append)
qed

lemma strip_sort_none: "(\<forall>i. \<not> sort_suffix (drop i s)) \<Longrightarrow> strip_sort s = s"
proof (induction s)
  case Nil
  then show ?case by simp
next
  case (Cons c s)
  from Cons.prems [rule_format, of 0] have n: "\<not> sort_suffix (c # s)" by simp
  from Cons.prems have "\<not> sort_suffix (drop i s)" for i
    using Cons.prems [rule_format, of "Suc i"] by simp
  with Cons.IH n show ?case by simp
qed

lemma before_sep_first:
  assumes "\<forall>i<length e. \<not> startsWith (drop i (e @ sep @ a)) sep" "sep \<noteq> []"
  shows "before_sep sep (e @ sep @ a) = e"
  using assms(1)
proof (induction e)
  case Nil
  from assms(2) show ?case by (cases sep) (auto simp: startsWith_def)
next
  case (Cons c e)
  from Cons.prems [rule_format, of 0] have n: "\<not> startsWith ((c # e) @ sep @ a) sep" by simp
  have "\<forall>i<length e. \<not> startsWith (drop i (e @ sep @ a)) sep"
  proof (intro allI impI)
    fix i assume "i < length e"
    with Cons.prems [rule_format, of "Suc i"] show "\<not> startsWith (drop i (e @ sep @ a)) sep" by simp
  qed
  with Cons.IH n show ?case by simp
qed

lemma no_sort_direction:
  assumes "list_all (\<lambda>i. \<not> sort_suffix (drop i s)) [0..<length s]"
  shows "\<forall>p w t w'. s = p @ w @ t @ w' \<longrightarrow> \<not> (w \<noteq> [] \<and> all_space w \<and> sort_word t \<and> all_space w')"
proof (intro allI impI notI)
  fix p w t w'
  assume s: "s = p @ w @ t @ w'" and v: "w \<noteq> [] \<and> all_space w \<and> sort_word t \<and> all_space w'"
  then have "sort_suffix (drop (length p) s)" by (simp add: sort_suffix_intro)
  moreover from s v have "length p < length s" by (cases w) auto
  ultimately show False using assms by (auto simp: list_all_iff)
qed

lemma list_all_upt: "list_all P [0..<n] \<Longrightarrow> \<forall>i<n. P i"
  by (simp add: list_all_iff)

text \<open>
  Claim C6, amended. \<open>cleanKey\<close> removes a trailing \<open>asc\<close> or \<open>desc\<close>, in any letter case,
  together with the white space before it, when at least one white space character
  stands before the word (white space after it is optional), and trims what is left; a
  key that does not end so is only trimmed; an absent key gives \<open>undefined\<close>. It does not
  resolve aliases: the part before the first \<open>" as "\<close>, trimmed, is what \<open>processData\<close>
  of the first component takes as the key of the X axis.
\<close>

theorem cleanKey_strips_sort_direction:
  "cleanKey None = None \<and>
   (w \<noteq> [] \<and> all_space w \<and> sort_word t \<and> all_space w'
      \<longrightarrow> cleanKey (Some (p @ w @ t @ w')) = Some (trim p)) \<and>
   ((\<forall>p w t w'. s = p @ w @ t @ w' \<longrightarrow>
        \<not> (w \<noteq> [] \<and> all_space w \<and> sort_word t \<and> all_space w'))
      \<longrightarrow> cleanKey (Some s) = Some (trim s)) \<and>
   ((\<forall>i<length e. \<not> startsWith (drop i (e @ '' as '' @ a)) '' as '')
      \<longrightarrow> alias_key (Some (e @ '' as '' @ a)) = Some (trim e))"
proof (intro conjI impI)
  show "cleanKey None = None" by (simp add: cleanKey_def)
next
  assume v: "w \<noteq> [] \<and> all_space w \<and> sort_word t \<and> all_space w'"
  then obtain p' a where "p = p' @ a" "all_space a" "strip_sort (p @ w @ t @ w') = p'"
    using strip_sort_decompose [of w t w' p] by blast
  then show "cleanKey (Some (p @ w @ t @ w')) = Some (trim p)"
    by (simp add: cleanKey_def trim_append_space)
next
  assume n: "\<forall>p w t w'. s = p @ w @ t @ w' \<longrightarrow>
        \<not> (w \<noteq> [] \<and> all_space w \<and> sort_word t \<and> all_space w')"
  have "\<not> sort_suffix (drop i s)" for i
  proof
    assume "sort_suffix (drop i s)"
    from sort_suffix_elim [OF this] obtain w t w' where
      "drop i s = w @ t @ w'" "w \<noteq> []" "all_space w" "sort_word t" "all_space w'" by blast
    moreover then have "s = take i s @ w @ t @ w'" by (metis append_take_drop_id)
    ultimately show False using n by blast
  qed
  then have "strip_sort s = s" by (simp add: strip_sort_none)
  then show "cleanKey (Some s) = Some (trim s)" by (simp add: cleanKey_def)
next
  assume "\<forall>i<length e. \<not> startsWith (drop i (e @ '' as '' @ a)) '' as ''"
  then have "before_sep '' as '' (e @ '' as '' @ a) = e" by (rule before_sep_first) simp
  then show "alias_key (Some (e @ '' as '' @ a)) = Some (trim e)" by (simp add: alias_key_def)
qed

theorem cleanKey_strips_sort_direction_witness:
  "all_space '' '' \<and> sort_word ''DESC'' \<and> all_space [] \<and>
   cleanKey (Some ''Revenue DESC'') = Some ''Revenue'' \<and>
   cleanKey (Some '' Revenue '') = Some ''Revenue'' \<and>
   alias_key (Some ''sum(x) as total'') = Some ''sum(x)''"
proof -
  have h1: "'' '' \<noteq> [] \<and> all_space '' '' \<and> sort_word ''DESC'' \<and> all_space []" by code_simp
  have "list_all (\<lambda>i. \<not> sort_suffix (drop i '' Revenue '')) [0..<length '' Revenue '']"
    by code_simp
  then have h2: "\<forall>p w t w'. '' Revenue '' = p @ w @ t @ w' \<longrightarrow>
        \<not> (w \<noteq> [] \<and> all_space w \<and> sort_word t \<and> all_space w')"
    by (rule no_sort_direction)
  have "list_all (\<lambda>i. \<not> startsWith (drop i (''sum(x)'' @ '' as '' @ ''total'')) '' as '')
          [0..<length ''sum(x)'']"
    by code_simp
  then have h3: "\<forall>i<length ''sum(x)''. \<not> startsWith (drop i (''sum(x)'' @ '' as '' @ ''total'')) '' as ''"
    by (rule list_all_upt)
  note t = cleanKey_strips_sort_direction [of "'' ''" "''DESC''" "[]" "''Revenue''" "'' Revenue ''"
      "''sum(x)''" "''total''"]
  from t h1 have a: "cleanKey (Some (''Revenue'' @ '' '' @ ''DESC'' @ [])) = Some (trim ''Revenue'')"
    by blast
  from t h2 have b: "cleanKey (Some '' Revenue '') = Some (trim '' Revenue '')" by blast
  from t h3 have c: "alias_key (Some (''sum(x)'' @ '' as '' @ ''total'')) = Some (trim ''sum(x)'')"
    by blast
  have tr: "trim ''Revenue'' = ''Revenue''" "trim '' Revenue '' = ''Revenue''" "trim ''sum(x)'' = ''sum(x)''"
    by code_simp+
  from a b c h1 show ?thesis by (simp add: tr)
qed

text \<open>
  Claim C6 as stated fails: \<open>cleanKey\<close> leaves an alias clause in place, it leaves a sort
  word with no white space before it in place, and the alias split of \<open>processData\<close>
  leaves the sort direction in place.
\<close>

theorem cleanKey_alias_counterexample:
  "cleanKey (Some ''sum(x) as total'') = Some ''sum(x) as total'' \<and>
   cleanKey (Some ''desc'') = Some ''desc'' \<and>
   alias_key (Some ''Revenue DESC'') = Some ''Revenue DESC''"
  by code_simp

section \<open>The annotation engine\<close>

lemma renderAnnotations_nth:
  assumes "i < length annos"
  shows "\<exists>es. renderAnnotations (Some annos) data yk = Some es \<and> length es = length annos \<and>
              es ! i = render_annotation data yk i (annos ! i)"
  using assms by (auto simp: renderAnnotations_def nth_enumerate_eq)

lemma renderAnnotations_none:
  "renderAnnotations None data yk = None" "renderAnnotations (Some []) data yk = None"
  by (simp_all add: renderAnnotations_def)

text \<open>The bar chart and the line chart draw no annotation when there is no row.\<close>

lemma chart_annotations_no_data: "chart_annotations [] config = None"
  by (simp add: chart_annotations_def)

lemma average_step:
  assumes "finite_or_missing k d"
  shows "js_add (JNum (Fin s)) (or_val (map_of d k) (JNum (Fin 0))) =
         JNum (Fin (s + spec_contribution k d))"
proof (cases "map_of d k")
  case None
  then show ?thesis
    by (simp add: or_val_def js_add_def spec_contribution_def)
next
  case (Some v)
  show ?thesis
  proof (cases v)
    case (JNum n)
    with Some assms show ?thesis
      by (cases n) (simp_all add: or_val_def js_add_def spec_contribution_def finite_or_missing_def)
  next
    case (JStr x)
    with Some assms show ?thesis by (simp add: finite_or_missing_def)
  next
    case JNull
    with Some show ?thesis
      by (simp add: or_val_def js_add_def spec_contribution_def)
  qed
qed

lemma average_fold:
  "\<forall>d\<in>set data. finite_or_missing k d \<Longrightarrow>
   foldl (\<lambda>acc d. js_add acc (or_val (map_of d k) (JNum (Fin 0)))) (JNum (Fin s)) data =
   JNum (Fin (s + sum_list (map (spec_contribution k) data)))"
proof (induction data arbitrary: s)
  case Nil
  then show ?case by simp
next
  case (Cons d data)
  then show ?case by (simp add: average_step add.assoc)
qed

lemma average_value_mean:
  assumes "\<forall>d\<in>set data. finite_or_missing k d"
  shows "average_value data k = Fin (spec_mean data k)"
proof -
  have "foldl (\<lambda>acc d. js_add acc (or_val (map_of d k) (JNum (Fin 0)))) (JNum (Fin 0)) data =
        JNum (Fin (sum_list (map (spec_contribution k) data)))"
    using average_fold [OF assms, of 0] by simp
  then show ?thesis
    by (cases data) (auto simp: average_value_def spec_mean_def Let_def)
qed

lemma average_value_not_NaN: "average_value data k \<noteq> NaN"
  by (auto simp: average_value_def Let_def)

lemma average_value_empty: "average_value [] k = Fin 0"
  by (simp add: average_value_def)

text \<open>
  Claim C2, amended. For a line annotation in mode \<open>average\<close> and a key of the Y axis that
  is not empty, \<open>renderAnnotations\<close> draws a line whose value is never \<open>NaN\<close>, is \<open>0\<close> for
  no rows, and is the arithmetic mean of the column over all rows, a missing, \<open>null\<close> or
  \<open>NaN\<close> value counting as \<open>0\<close>, when every value of the column is a finite number,
  \<open>NaN\<close>, \<open>null\<close> or missing.
\<close>

theorem average_annotation:
  assumes "anno_type a = Some ''line''" "anno_mode a = Some ''average''" "k \<noteq> []"
  shows "\<exists>v key s d l.
           render_annotation data (Some k) idx a = Some (ReferenceLine key (JNum v) s d l) \<and>
           v \<noteq> NaN \<and> (data = [] \<longrightarrow> v = Fin 0) \<and>
           ((\<forall>d\<in>set data. finite_or_missing k d) \<longrightarrow> v = Fin (spec_mean data k))"
proof -
  from assms have "\<exists>key s d l. render_annotation data (Some k) idx a =
      Some (ReferenceLine key (JNum (average_value data k)) s d l)"
    by (simp add: render_annotation_def Let_def truthy_str_def prop_key_def)
  moreover have "average_value data k \<noteq> NaN" by (rule average_value_not_NaN)
  moreover have "data = [] \<longrightarrow> average_value data k = Fin 0" by (simp add: average_value_empty)
  moreover have "(\<forall>d\<in>set data. finite_or_missing k d) \<longrightarrow> average_value data k = Fin (spec_mean data k)"
    by (simp add: average_value_mean)
  ultimately show ?thesis by blast
qed

theorem average_annotation_witness:
  "anno_type average_line = Some ''line'' \<and> anno_mode average_line = Some ''average'' \<and>
   list_all (finite_or_missing ''y'') y_rows \<and> spec_mean y_rows ''y'' = 20 \<and>
   (\<exists>key s d l. render_annotation y_rows (Some ''y'') 0 average_line
      = Some (ReferenceLine key (JNum (Fin 20)) s d l)) \<and>
   (\<exists>key s d l. render_annotation [] (Some ''y'') 0 average_line
      = Some (ReferenceLine key (JNum (Fin 0)) s d l))"
proof -
  have h1: "anno_type average_line = Some ''line''" and h2: "anno_mode average_line = Some ''average''"
    by (simp_all add: average_line_def)
  have h3: "''y'' \<noteq> []" by simp
  have h4: "list_all (finite_or_missing ''y'') y_rows" by code_simp
  then have h4': "\<forall>d\<in>set y_rows. finite_or_missing ''y'' d" by (simp add: list_all_iff)
  have m: "spec_mean y_rows ''y'' = 20" by code_simp
  from average_annotation [OF h1 h2 h3, of y_rows 0] h4' m
  have a: "\<exists>key s d l. render_annotation y_rows (Some ''y'') 0 average_line
      = Some (ReferenceLine key (JNum (Fin 20)) s d l)"
    by auto
  from average_annotation [OF h1 h2 h3, of "[]" 0]
  have b: "\<exists>key s d l. render_annotation [] (Some ''y'') 0 average_line
      = Some (ReferenceLine key (JNum (Fin 0)) s d l)"
    by auto
  from h1 h2 h4 m a b show ?thesis by blast
qed

text \<open>
  Claim C2 as stated fails on a column that holds a string: the string does not count as
  \<open>0\<close>, it turns the sum into a concatenation. For the rows \<open>{y: "abc"}\<close> and \<open>{y: 10}\<close>
  the sum is the string \<open>"0abc10"\<close>, which is no number, and the value of the line is \<open>0\<close>,
  where the mean with \<open>"abc"\<close> as \<open>0\<close> is \<open>5\<close>.
\<close>

theorem average_text_counterexample:
  "render_annotation text_rows (Some ''y'') 0 average_line
     = Some (ReferenceLine ''anno-0'' (JNum (Fin 0)) ''#666'' ''3 3'' (Some ''Avg'')) \<and>
   spec_mean text_rows ''y'' = 5"
  by code_simp

lemma generateAnnotations_empty_NaN:
  "generateAnnotations []
     \<lparr>viz_type = Some ''bar'', viz_axes = Some \<lparr>axis_x = Some ''x'', axis_y = Some ''y''\<rparr>,
      viz_annotations = Some [average_line]\<rparr>
   = Inr [\<lparr>la_value = NaN, la_label = ''Average'',
           la_style = \<lparr>stroke = Some ''#666'', strokeDasharray = Some ''3 3'', radius = None,
                       fill = None\<rparr>\<rparr>]"
  by code_simp

lemma num_le_refl: "x \<noteq> NaN \<Longrightarrow> num_le x x"
  by (cases x) simp_all

lemma num_le_trans: "num_le x y \<Longrightarrow> num_le y z \<Longrightarrow> num_le x z"
  by (cases x; cases y; cases z) simp_all

lemma num_le_total: "x \<noteq> NaN \<Longrightarrow> y \<noteq> NaN \<Longrightarrow> num_le x y \<or> num_le y x"
  by (cases x; cases y) auto

lemma max2_cases: "a \<noteq> NaN \<Longrightarrow> b \<noteq> NaN \<Longrightarrow>
  (max2 a b = a \<or> max2 a b = b) \<and> num_le a (max2 a b) \<and> num_le b (max2 a b)"
  using num_le_total [of a b] by (auto simp: max2_def num_le_refl)

lemma foldl_max2:
  "a \<noteq> NaN \<Longrightarrow> \<forall>x\<in>set xs. x \<noteq> NaN \<Longrightarrow>
   (foldl max2 a xs = a \<or> foldl max2 a xs \<in> set xs) \<and>
   num_le a (foldl max2 a xs) \<and> (\<forall>x\<in>set xs. num_le x (foldl max2 a xs))"
proof (induction xs arbitrary: a)
  case Nil
  then show ?case by (simp add: num_le_refl)
next
  case (Cons x xs)
  from Cons.prems have x: "x \<noteq> NaN" and xs: "\<forall>y\<in>set xs. y \<noteq> NaN" by auto
  from max2_cases [OF Cons.prems(1) x]
  have m: "max2 a x = a \<or> max2 a x = x" "num_le a (max2 a x)" "num_le x (max2 a x)" by auto
  with Cons.prems(1) x have n: "max2 a x \<noteq> NaN" by auto
  from Cons.IH [OF n xs] m show ?case
    by (auto intro: num_le_trans)
qed

lemma math_max_greatest:
  assumes "xs \<noteq> []" "\<forall>x\<in>set xs. x \<noteq> NaN"
  shows "math_max xs \<in> set xs \<and> (\<forall>x\<in>set xs. num_le x (math_max xs))"
proof -
  from foldl_max2 [of NegInf xs] assms(2)
  have f: "math_max xs = NegInf \<or> math_max xs \<in> set xs" "\<forall>x\<in>set xs. num_le x (math_max xs)"
    by (auto simp: math_max_def)
  from assms(1) obtain x where x: "x \<in> set xs" by (cases xs) auto
  have "math_max xs \<in> set xs"
  proof (cases "math_max xs = NegInf")
    case True
    with f(2) x have "num_le x NegInf" by auto
    then have "x = NegInf" by (cases x) simp_all
    with x True show ?thesis by simp
  next
    case False
    with f(1) show ?thesis by simp
  qed
  with f(2) show ?thesis by simp
qed

lemma observed_value:
  assumes "number_or_missing k d"
  shows "to_number (Some (or_val (map_of d k) (JNum (Fin 0)))) = spec_observed k d \<and>
         spec_observed k d \<noteq> NaN"
proof (cases "map_of d k")
  case None
  then show ?thesis by (simp add: or_val_def spec_observed_def)
next
  case (Some v)
  with assms show ?thesis
    by (cases v) (auto simp: or_val_def spec_observed_def number_or_missing_def)
qed

lemma max_value_greatest:
  assumes "data \<noteq> []" "\<forall>d\<in>set data. number_or_missing (prop_key yk) d"
  shows "max_value data yk \<in> spec_observed (prop_key yk) ` set data \<and>
         (\<forall>d\<in>set data. num_le (spec_observed (prop_key yk) d) (max_value data yk))"
proof -
  from assms(2) have eq: "map (\<lambda>d. to_number (Some (or_val (map_of d (prop_key yk)) (JNum (Fin 0))))) data
      = map (spec_observed (prop_key yk)) data"
    by (simp add: observed_value)
  from assms(2) have nn: "\<forall>x\<in>set (map (spec_observed (prop_key yk)) data). x \<noteq> NaN"
    by (auto simp: observed_value)
  from assms(1) have ne: "map (spec_observed (prop_key yk)) data \<noteq> []" by simp
  from math_max_greatest [OF ne nn] show ?thesis
    by (simp add: max_value_def eq)
qed

text \<open>
  Claim C7, amended. For a line annotation in mode \<open>trend\<close> or \<open>regression\<close> over rows that
  are not empty, when every value of the Y column is a number other than \<open>NaN\<close>, \<open>null\<close>
  or missing, \<open>renderAnnotations\<close> draws a horizontal line at the greatest value of the
  column over the rows, \<open>null\<close> and missing values counting as \<open>0\<close>: the value is one of
  the observed ones and no observed one is greater.
\<close>

theorem trend_annotation:
  assumes "anno_type a = Some ''line''"
      and "anno_mode a = Some ''trend'' \<or> anno_mode a = Some ''regression''"
      and "data \<noteq> []"
      and "\<forall>d\<in>set data. number_or_missing (prop_key yk) d"
  shows "\<exists>m key s d l.
           render_annotation data yk idx a = Some (ReferenceLine key (JNum m) s d l) \<and>
           m \<in> spec_observed (prop_key yk) ` set data \<and>
           (\<forall>r\<in>set data. num_le (spec_observed (prop_key yk) r) m)"
proof -
  from assms(1,2) have "\<exists>key s d l. render_annotation data yk idx a =
      Some (ReferenceLine key (JNum (max_value data yk)) s d l)"
    by (auto simp: render_annotation_def Let_def)
  with max_value_greatest [OF assms(3,4)] show ?thesis by blast
qed

theorem trend_annotation_witness:
  "anno_type trend_line = Some ''line'' \<and> anno_mode trend_line = Some ''trend'' \<and>
   y_rows \<noteq> [] \<and> list_all (number_or_missing (prop_key (Some ''y''))) y_rows \<and>
   map (spec_observed (prop_key (Some ''y''))) y_rows = [Fin 10, Fin 20, Fin 30] \<and>
   (\<exists>key s d l. render_annotation y_rows (Some ''y'') 1 trend_line
      = Some (ReferenceLine key (JNum (Fin 30)) s d l))"
proof -
  have h1: "anno_type trend_line = Some ''line''"
    and h2: "anno_mode trend_line = Some ''trend'' \<or> anno_mode trend_line = Some ''regression''"
    by (simp_all add: trend_line_def)
  have h3: "y_rows \<noteq> []" by (simp add: y_rows_def)
  have h4: "list_all (number_or_missing (prop_key (Some ''y''))) y_rows" by code_simp
  then have h4': "\<forall>d\<in>set y_rows. number_or_missing (prop_key (Some ''y'')) d"
    by (simp add: list_all_iff)
  have o: "map (spec_observed (prop_key (Some ''y''))) y_rows = [Fin 10, Fin 20, Fin 30]"
    by code_simp
  from trend_annotation [OF h1 h2 h3 h4', of 1] obtain m key s d l where
    r: "render_annotation y_rows (Some ''y'') 1 trend_line = Some (ReferenceLine key (JNum m) s d l)"
    and m1: "m \<in> spec_observed (prop_key (Some ''y'')) ` set y_rows"
    and m2: "\<forall>r\<in>set y_rows. num_le (spec_observed (prop_key (Some ''y'')) r) m"
    by blast
  from m1 have "m \<in> set (map (spec_observed (prop_key (Some ''y''))) y_rows)" by simp
  then have c: "m = Fin 10 \<or> m = Fin 20 \<or> m = Fin 30" by (simp add: o)
  from m2 have "\<forall>x\<in>set (map (spec_observed (prop_key (Some ''y''))) y_rows). num_le x m" by simp
  then have "num_le (Fin 30) m" by (simp add: o)
  with c have "m = Fin 30" by auto
  with r have "\<exists>key s d l. render_annotation y_rows (Some ''y'') 1 trend_line
      = Some (ReferenceLine key (JNum (Fin 30)) s d l)" by blast
  with h1 h2 h3 h4 o show ?thesis by (simp add: trend_line_def)
qed

text \<open>
  Claim C7 as stated fails on a column that holds a string that is no number:
  \<open>Math.max\<close> converts it to \<open>NaN\<close>, and the value of the line is \<open>NaN\<close>, not the greatest
  observed value.
\<close>

theorem trend_text_counterexample:
  "render_annotation text_rows (Some ''y'') 0 trend_line
     = Some (ReferenceLine ''anno-0'' (JNum NaN) ''rgba(255,0,0,0.5)'' ''5,5'' (Some ''Trend/Max'')) \<and>
   map (spec_observed ''y'') text_rows = [Fin 0, Fin 10]"
  by code_simp

text \<open>
  Claim C8, amended. For a dot annotation without \<open>x\<close> or without \<open>y\<close>, the key being
  absent (a coordinate that is \<open>null\<close> is there), \<open>renderAnnotations\<close> raises no error and draws nothing: the entry of the annotation in
  the returned array, which has one entry for each annotation, is \<open>null\<close>. For the one
  annotation \<open>{type: "dot", x: 5}\<close> the array is \<open>[null]\<close>, with no element to draw.
\<close>

theorem dot_annotation_skipped:
  assumes "anno_type a = Some ''dot''" and "anno_x a = None \<or> anno_y a = None"
  shows "render_annotation data yk idx a = None \<and>
         renderAnnotations (Some [a]) data yk = Some [None] \<and>
         emitted (renderAnnotations (Some [a]) data yk) = [] \<and>
         (\<forall>annos i. i < length annos \<and> annos ! i = a \<longrightarrow>
            (\<exists>es. renderAnnotations (Some annos) data yk = Some es \<and>
                  length es = length annos \<and> es ! i = None))"
proof -
  have r: "render_annotation data yk j a = None" for j
    using assms by (auto simp: render_annotation_def Let_def)
  have "\<exists>es. renderAnnotations (Some annos) data yk = Some es \<and>
            length es = length annos \<and> es ! i = None"
    if "i < length annos \<and> annos ! i = a" for annos i
    using that r [of i] by (auto simp: renderAnnotations_def nth_enumerate_eq)
  moreover have "renderAnnotations (Some [a]) data yk = Some [None]"
    using r [of 0] by (simp add: renderAnnotations_def enumerate_simps)
  ultimately show ?thesis using r [of idx]
    by (simp add: emitted_def List.map_filter_simps)
qed

theorem dot_annotation_skipped_witness:
  "anno_type dot_without_y = Some ''dot'' \<and> anno_y dot_without_y = None \<and>
   renderAnnotations (Some [dot_without_y]) y_rows (Some ''sales'') = Some [None] \<and>
   emitted (renderAnnotations (Some [dot_without_y]) y_rows (Some ''sales'')) = [] \<and>
   (\<exists>es. renderAnnotations (Some [average_line, dot_without_y]) y_rows (Some ''y'') = Some es \<and>
         length es = 2 \<and> es ! 1 = None)"
proof -
  have h1: "anno_type dot_without_y = Some ''dot''"
    and h2: "anno_x dot_without_y = None \<or> anno_y dot_without_y = None"
    by (simp_all add: dot_without_y_def)
  from dot_annotation_skipped [OF h1 h2, of y_rows "Some ''sales''"]
  have a: "renderAnnotations (Some [dot_without_y]) y_rows (Some ''sales'') = Some [None]"
    and b: "emitted (renderAnnotations (Some [dot_without_y]) y_rows (Some ''sales'')) = []"
    by blast+
  from dot_annotation_skipped [OF h1 h2, of y_rows "Some ''y''" 0]
  have "\<forall>annos i. i < length annos \<and> annos ! i = dot_without_y \<longrightarrow>
            (\<exists>es. renderAnnotations (Some annos) y_rows (Some ''y'') = Some es \<and>
                  length es = length annos \<and> es ! i = None)"
    by blast
  from this [rule_format, of 1 "[average_line, dot_without_y]"]
  have c: "\<exists>es. renderAnnotations (Some [average_line, dot_without_y]) y_rows (Some ''y'') = Some es \<and>
         length es = 2 \<and> es ! 1 = None"
    by (simp add: numeral_2_eq_2)
  from h1 a b c show ?thesis by (simp add: dot_without_y_def)
qed

text \<open>
  Claim C8 as stated fails: the returned array is not empty, it holds \<open>null\<close> for the
  annotation.
\<close>

theorem dot_annotation_counterexample:
  "renderAnnotations (Some [dot_without_y]) y_rows (Some ''sales'') = Some [None] \<and>
   renderAnnotations (Some [dot_without_y]) y_rows (Some ''sales'') \<noteq> Some []"
  by code_simp

text \<open>A coordinate that is \<open>null\<close> is there: the dot is drawn.\<close>

lemma dot_annotation_null_coordinate:
  "render_annotation data yk 0
     \<lparr>anno_type = Some ''dot'', anno_mode = None, anno_x = Some (JNum (Fin 5)),
      anno_y = Some JNull, anno_label = None, anno_style = None\<rparr>
   = Some (ReferenceDot ''anno-0'' (Some (JNum (Fin 5))) (Some JNull) (JNum (Fin 5))
            ''red'' ''white'' None)"
  by code_simp

section \<open>The CSV export\<close>

lemma csv_cell_number: "csv_cell (Some (JNum n)) = num_to_string n"
  by (simp add: csv_cell_def or_else_def)

lemma csv_cell_string: "csv_cell (Some (JStr s)) = [CHR 0x22] @ double_quotes s @ [CHR 0x22]"
  by (simp add: csv_cell_def or_else_def)

lemma double_quotes_Cons:
  "double_quotes (c # s) = (if c = CHR 0x22 then [c, c] else [c]) @ double_quotes s"
  by (simp add: double_quotes_def)

lemma undouble_other: "c \<noteq> CHR 0x22 \<Longrightarrow> undouble (c # xs) = c # undouble xs"
  by (cases xs) simp_all

lemma undouble_double_quotes: "undouble (double_quotes s) = s"
proof (induction s)
  case Nil
  then show ?case by (simp add: double_quotes_def)
next
  case (Cons c s)
  then show ?case by (simp add: double_quotes_Cons undouble_other)
qed

lemma handleExport_csv:
  assumes "currentViz visualizations (activeTab st) = Some cv"
      and "useProcessedData data (Some cv) \<noteq> []"
  shows "downloads (handleExport data visualizations title st) =
         downloads st @
         [(file_name title,
           join [CHR 0x0A]
             (join '','' (export_columns data) #
              map (\<lambda>r. join '','' (map (\<lambda>col. csv_cell (map_of r col)) (export_columns data)))
                (useProcessedData data (Some cv))))]"
  using assms by (simp add: handleExport_def csv_text_def)

lemma handleExport_escapes:
  "handleExport (Some quoted_rows) (Some [employee_config]) ''Top Sales'' first_tab =
   \<lparr>activeTab = ''option-0'',
    downloads =
      [(''top-sales.csv'',
        ''employeeName,totalSales'' @ [CHR 0x0A] @
        [CHR 0x22] @ ''Bob '' @ [CHR 0x22, CHR 0x22] @ ''The Closer'' @ [CHR 0x22, CHR 0x22] @
        '' Smith'' @ [CHR 0x22] @ '',150.38'')]\<rparr>"
  by code_simp

text \<open>
  Claim C9 says that the header of the CSV is the column names joined by commas, that a
  number is printed as it is and that a string is put in double quotes with every double
  quote in it doubled. \<open>handleExport\<close> of \<open>MultiVisualization\<close> does so, as the lemmas above
  show. \<open>handleExport\<close> of the first \<open>MultiVisualization\<close> puts a string in double quotes
  and leaves the double quotes in it as they are: for the name
  \<open>Bob "The Closer" Smith\<close> the field is \<open>"Bob "The Closer" Smith"\<close>.
\<close>

theorem handleExport_first_unescaped:
  "handleExport_first (Some quoted_rows) [employee_config] ''Top Sales'' first_tab =
   Inr \<lparr>activeTab = ''option-0'',
        downloads =
          [(''top-sales.csv'',
            ''employeeName,totalSales,name,color'' @ [CHR 0x0A] @
            [CHR 0x22] @ ''Bob '' @ [CHR 0x22] @ ''The Closer'' @ [CHR 0x22] @ '' Smith'' @
            [CHR 0x22] @ '',150.38,'' @
            [CHR 0x22] @ ''Bob '' @ [CHR 0x22] @ ''The Closer'' @ [CHR 0x22] @ '' Smith'' @
            [CHR 0x22] @ '','' @ [CHR 0x22] @ ''#0088FE'' @ [CHR 0x22])]\<rparr>"
  by code_simp

end
